theory Spec2Isabelle
  imports Complex_Main "HOL-Library.Multiset" "HOL-Library.Sublist"
begin

section \<open>Scoring helpers of app.py\<close>

text \<open>
  Python numbers. The scores are Python \<open>int\<close>s (unbounded, modelled as \<open>int\<close>); the
  arguments of \<open>clamp_score\<close> are either \<open>int\<close>s or the result of a true division by 2 of
  a small \<open>int\<close>, a float that is represented exactly. Both are modelled as \<open>real\<close>.

  \<open>round(x)\<close> with one argument returns an \<open>int\<close>; Python 3 rounds a tie to the even
  neighbour. HOL's \<open>round\<close> rounds a tie upwards, so the builtin is written out.
\<close>

definition py_round :: "real \<Rightarrow> int" where
  "py_round x =
     (let f = \<lfloor>x\<rfloor>; d = x - of_int f
      in if d < 1 / 2 then f
         else if 1 / 2 < d then f + 1
         else if even f then f else f + 1)"

text \<open>\<open>def clamp_score(x, lo=1, hi=10): return max(lo, min(hi, round(x)))\<close>\<close>

definition clamp_score :: "real \<Rightarrow> int \<Rightarrow> int \<Rightarrow> int" where
  "clamp_score x lo hi = max lo (min hi (py_round x))"

text \<open>The \<open>if\<close>/\<open>elif\<close> chain of \<open>cohesion_from_colors\<close>, in the source's order.\<close>

definition cohesion_from_colors :: "int \<Rightarrow> int" where
  "cohesion_from_colors color_count =
     (if color_count \<le> 6 then 10
      else if color_count \<le> 12 then 8
      else if color_count \<le> 24 then 6
      else if color_count \<le> 48 then 4
      else 2)"

section \<open>Colour tokens\<close>

text \<open>
  A Python \<open>str\<close> is a sequence of code points, and \<open>len\<close> and slicing count code
  points. Texts are modelled as \<open>string\<close>, one \<open>char\<close> per code point, which covers
  the code points 0 to 255.

  The first pattern of \<open>count_colors\<close> is a \<open>#\<close> followed by 3 to 8 hex digits
  \<open>[0-9a-fA-F]\<close>. The second is \<open>rgb(\<close>, then three runs of decimal digits separated
  by commas, with optional whitespace before each run and before the closing \<open>)\<close>. On a
  \<open>str\<close> a digit is a decimal digit and whitespace is whitespace in the Unicode sense;
  below 256 these are the characters listed.
\<close>

definition is_hex :: "char \<Rightarrow> bool" where
  "is_hex c = (c \<in> set ''0123456789abcdefABCDEF'')"

definition is_digit :: "char \<Rightarrow> bool" where
  "is_digit c = (c \<in> set ''0123456789'')"

definition is_space :: "char \<Rightarrow> bool" where
  "is_space c = (c \<in> set [CHR 0x09, CHR 0x0A, CHR 0x0B, CHR 0x0C, CHR 0x0D,
                            CHR 0x1C, CHR 0x1D, CHR 0x1E, CHR 0x1F, CHR 0x20, CHR 0x85, CHR 0xA0])"

text \<open>
  \<open>re.findall\<close> scans from the left and returns the non-overlapping matches. A hex match
  at a \<open>#\<close> takes as many hex digits as follow, up to 8, and needs 3; after a match the scan
  goes on behind it, otherwise at the next character.
\<close>

fun findall_hex :: "string \<Rightarrow> string list" where
  "findall_hex [] = []"
| "findall_hex (c # cs) =
     (if c = CHR ''#'' \<and> 3 \<le> length (takeWhile is_hex (take 8 cs))
      then (c # takeWhile is_hex (take 8 cs))
             # findall_hex (drop (length (takeWhile is_hex (take 8 cs))) cs)
      else findall_hex cs)"

text \<open>
  The \<open>rgb\<close> pattern is a sequence of literals and greedy repetitions. Each repetition is
  followed by a character outside its class, so taking the longest run never loses a match.
  Every piece returns the rest of the text behind what it matched.
\<close>

definition lit :: "string \<Rightarrow> string \<Rightarrow> string option" where
  "lit p s = (if prefix p s then Some (drop (length p) s) else None)"

definition spaces :: "string \<Rightarrow> string option" where
  "spaces s = Some (dropWhile is_space s)"

definition digits1 :: "string \<Rightarrow> string option" where
  "digits1 s = (if takeWhile is_digit s = [] then None else Some (dropWhile is_digit s))"

definition match_rgb :: "string \<Rightarrow> string option" where
  "match_rgb s =
     Option.bind (lit ''rgb('' s) (\<lambda>s.
     Option.bind (spaces s) (\<lambda>s. Option.bind (digits1 s) (\<lambda>s. Option.bind (lit '','' s) (\<lambda>s.
     Option.bind (spaces s) (\<lambda>s. Option.bind (digits1 s) (\<lambda>s. Option.bind (lit '','' s) (\<lambda>s.
     Option.bind (spaces s) (\<lambda>s. Option.bind (digits1 s) (\<lambda>s.
     Option.bind (spaces s) (\<lambda>s. lit '')'' s))))))))))"

function findall_rgb :: "string \<Rightarrow> string list" where
  "findall_rgb [] = []"
| "findall_rgb (c # cs) =
     (case match_rgb (c # cs) of
        Some rest \<Rightarrow> take (length (c # cs) - length rest) (c # cs) # findall_rgb rest
      | None \<Rightarrow> findall_rgb cs)"
  by pat_completeness auto
termination
proof (relation "measure length")
  fix c cs rest
  assume m: "match_rgb (c # cs) = Some rest"
  have l: "length r \<le> length s" if "lit p s = Some r" for p s r
    using that by (auto simp: lit_def split: if_splits)
  have l0: "length r < length s" if "lit ''rgb('' s = Some r" for s r
    using that by (auto simp: lit_def prefix_def split: if_splits)
  have sp: "length r \<le> length s" if "spaces s = Some r" for s r
    using that by (auto simp: spaces_def length_dropWhile_le)
  have d: "length r \<le> length s" if "digits1 s = Some r" for s r
    using that by (auto simp: digits1_def length_dropWhile_le split: if_splits)
  from m obtain r1 r2 r3 r4 r5 r6 r7 r8 r9 r10 where
    "lit ''rgb('' (c # cs) = Some r1" "spaces r1 = Some r2" "digits1 r2 = Some r3"
    "lit '','' r3 = Some r4" "spaces r4 = Some r5" "digits1 r5 = Some r6"
    "lit '','' r6 = Some r7" "spaces r7 = Some r8" "digits1 r8 = Some r9"
    "spaces r9 = Some r10" "lit '')'' r10 = Some rest"
    unfolding match_rgb_def by (auto simp: bind_eq_Some_conv)
  then have "length rest < length (c # cs)"
    using l0 [of "c # cs" r1] sp [of r1 r2] d [of r2 r3] l [of "'',''" r3 r4] sp [of r4 r5]
      d [of r5 r6] l [of "'',''" r6 r7] sp [of r7 r8] d [of r8 r9] sp [of r9 r10]
      l [of "'')''" r10 rest]
    by linarith
  then show "(rest, c # cs) \<in> measure length" by simp
qed simp_all

text \<open>
  \<open>count_colors\<close>: \<open>css_text or ""\<close> turns \<open>None\<close> into the empty text;
  \<open>len(set(hex_colors + rgb_colors))\<close> counts the distinct matched strings.
\<close>

definition count_colors :: "string option \<Rightarrow> nat" where
  "count_colors css_text =
     (let css = (case css_text of None \<Rightarrow> [] | Some s \<Rightarrow> s);
          hex_colors = findall_hex css;
          rgb_colors = findall_rgb css
      in length (remdups (hex_colors @ rgb_colors)))"


section \<open>The outside world\<close>


text \<open>
  The network, the clock, \<open>urllib.parse\<close>, the HTML parser and pandas are not part of
  app.py. What app.py needs of them are the fields of a \<open>world\<close>; a call that can raise
  returns \<open>exn + 'a\<close>, and \<open>str\<close> is the message of an exception. The field
  \<open>wide_sum\<close> is the row sum of pandas on numbers too wide for exact arithmetic; it is
  explained with \<open>sum_axis1\<close>.
\<close>

datatype exn = KeyError string | Raised string

fun str :: "exn \<Rightarrow> string" where
  "str (KeyError k) = [CHR 0x27] @ k @ [CHR 0x27]"
| "str (Raised msg) = msg"

record parse_result =
  scheme :: string
  netloc :: string

text \<open>
  The attributes of a \<open>requests\<close> response that app.py reads: \<open>url\<close>, \<open>status_code\<close>,
  \<open>content\<close> (the body as bytes) and \<open>text\<close> (the body decoded to a \<open>str\<close>).
  \<open>raise_for_status\<close> raises for a status from 400 to 599, with the message kept in
  \<open>http_error\<close>, and \<open>ok\<close> is true when it does not raise.
\<close>

record response =
  resp_url :: string
  status_code :: int
  content :: string
  resp_text :: string
  http_error :: string

text \<open>
  A parsed document is the list of its tags in document order, each with its name and its
  attributes as written. \<open>find_all\<close> and \<open>find\<close> search the whole document, so the
  nesting of the tags does not matter here.
\<close>

record tag =
  tag_name :: string
  tag_attrs :: "(string \<times> string) list"

type_synonym soup = "tag list"

record world =
  urlparse :: "string \<Rightarrow> exn + parse_result"
  urljoin :: "string \<Rightarrow> string \<Rightarrow> exn + string"
  requests_get :: "string \<Rightarrow> real \<Rightarrow> exn + response"
  wall_time :: "string \<Rightarrow> real"
  BeautifulSoup :: "string \<Rightarrow> exn + soup"
  wide_sum :: "int option list list \<Rightarrow> int option list \<Rightarrow> int"

definition raise_for_status :: "response \<Rightarrow> exn + unit" where
  "raise_for_status r =
     (if 400 \<le> status_code r \<and> status_code r < 600 then Inl (Raised (http_error r)) else Inr ())"

definition ok :: "response \<Rightarrow> bool" where
  "ok r = (case raise_for_status r of Inl e \<Rightarrow> False | Inr u \<Rightarrow> True)"

fun str_contains :: "string \<Rightarrow> string \<Rightarrow> bool" where
  "str_contains p [] = (p = [])"
| "str_contains p (c # cs) = (prefix p (c # cs) \<or> str_contains p cs)"

fun join :: "string \<Rightarrow> string list \<Rightarrow> string" where
  "join sep [] = []"
| "join sep [x] = x"
| "join sep (x # y # xs) = x @ sep @ join sep (y # xs)"

text \<open>
  \<open>rel\<close> is a multi-valued attribute: the parser splits its value at whitespace, and a
  filter on it matches when one of the values matches or the values joined by a blank do.
  A tag without the attribute does not match.
\<close>

definition tag_get :: "tag \<Rightarrow> string \<Rightarrow> string option" where
  "tag_get t k = map_of (tag_attrs t) k"

fun split_ws :: "string \<Rightarrow> string \<Rightarrow> string list" where
  "split_ws cur [] = (if cur = [] then [] else [cur])"
| "split_ws cur (c # cs) =
     (if is_space c then (if cur = [] then split_ws [] cs else cur # split_ws [] cs)
      else split_ws (cur @ [c]) cs)"

definition rel_matches :: "(string \<Rightarrow> bool) \<Rightarrow> string option \<Rightarrow> bool" where
  "rel_matches p v =
     (case v of
        None \<Rightarrow> False
      | Some raw \<Rightarrow> (let vs = split_ws [] raw in list_ex p vs \<or> p (join '' '' vs)))"

definition find_all :: "soup \<Rightarrow> (tag \<Rightarrow> bool) \<Rightarrow> tag list" where
  "find_all sp p = filter p sp"

definition find_first :: "soup \<Rightarrow> (tag \<Rightarrow> bool) \<Rightarrow> tag option" where
  "find_first sp p = List.find p sp"

section \<open>Fetching\<close>

text \<open>
  \<open>fetch_html\<close>. \<open>urlparse\<close> runs before the \<open>try\<close>, so what it raises leaves the
  function; everything raised inside the \<open>try\<close> becomes the result \<open>{"error": str(e)}\<close>,
  here \<open>Inl\<close>. The elapsed time is what the clock measured around the request. The
  memoisation by \<open>st.cache_data\<close> does not change the result for a given world.
\<close>

record page =
  final_url :: string
  status :: int
  elapsed :: real
  content_size :: nat
  page_text :: string

definition fetch_html :: "world \<Rightarrow> string \<Rightarrow> real \<Rightarrow> exn + (string + page)" where
  "fetch_html w url timeout =
     (case urlparse w url of
        Inl e \<Rightarrow> Inl e
      | Inr parsed \<Rightarrow>
          (let url = (if scheme parsed = [] then ''https://'' @ url else url) in
           case requests_get w url timeout of
             Inl e \<Rightarrow> Inr (Inl (str e))
           | Inr r \<Rightarrow>
               (let elapsed = wall_time w url;
                    content_size = length (content r) in
                case raise_for_status r of
                  Inl e \<Rightarrow> Inr (Inl (str e))
                | Inr u \<Rightarrow>
                    Inr (Inr \<lparr>final_url = resp_url r, status = status_code r, elapsed = elapsed,
                              content_size = content_size, page_text = resp_text r\<rparr>))))"

text \<open>
  \<open>fetch_css_assets\<close>. \<open>hrefs[:limit]\<close> is Python's slice, also for a negative limit.
  The loop over the links stops at an exception of \<open>urljoin\<close>, which the outer
  \<open>except\<close> turns into the empty text; the loop over the hrefs passes over a request that
  raises, over a response that is not \<open>ok\<close> and over an empty text. Callers that use the
  defaults pass \<open>limit = 3\<close> and \<open>timeout = 4\<close>.
\<close>

definition py_slice_to :: "int \<Rightarrow> 'a list \<Rightarrow> 'a list" where
  "py_slice_to n xs = (if 0 \<le> n then take (nat n) xs else take (length xs - nat (- n)) xs)"

definition is_stylesheet_link :: "tag \<Rightarrow> bool" where
  "is_stylesheet_link t =
     (tag_name t = ''link''
      \<and> rel_matches (\<lambda>v. v \<noteq> [] \<and> str_contains ''stylesheet'' v) (tag_get t ''rel''))"

fun collect_hrefs :: "world \<Rightarrow> string \<Rightarrow> tag list \<Rightarrow> string list \<Rightarrow> exn + string list" where
  "collect_hrefs w base_url [] hrefs = Inr hrefs"
| "collect_hrefs w base_url (link # links) hrefs =
     (case tag_get link ''href'' of
        Some href \<Rightarrow>
          (if href \<noteq> [] then
             (case urljoin w base_url href of
                Inl e \<Rightarrow> Inl e
              | Inr u \<Rightarrow> collect_hrefs w base_url links (hrefs @ [u]))
           else collect_hrefs w base_url links hrefs)
      | None \<Rightarrow> collect_hrefs w base_url links hrefs)"

fun fetch_each :: "world \<Rightarrow> real \<Rightarrow> string list \<Rightarrow> string list \<Rightarrow> string list" where
  "fetch_each w timeout [] css_texts = css_texts"
| "fetch_each w timeout (h # hrefs) css_texts =
     (case requests_get w h timeout of
        Inl e \<Rightarrow> fetch_each w timeout hrefs css_texts
      | Inr r \<Rightarrow>
          (if ok r \<and> resp_text r \<noteq> []
           then fetch_each w timeout hrefs (css_texts @ [take 50000 (resp_text r)])
           else fetch_each w timeout hrefs css_texts))"

definition fetch_css_assets :: "world \<Rightarrow> string \<Rightarrow> string \<Rightarrow> int \<Rightarrow> real \<Rightarrow> string" where
  "fetch_css_assets w html base_url limit timeout =
     (case BeautifulSoup w html of
        Inl e \<Rightarrow> []
      | Inr soup \<Rightarrow>
          (case collect_hrefs w base_url (find_all soup is_stylesheet_link) [] of
             Inl e \<Rightarrow> []
           | Inr hrefs \<Rightarrow>
               (let hrefs = py_slice_to limit hrefs;
                    css_texts = fetch_each w timeout hrefs []
                in join [CHR 0x0A] css_texts)))"

section \<open>Scoring a site\<close>

definition UX_FACTORS :: "string list" where
  "UX_FACTORS =
     [''Simplicity'', ''Navigation Ease'', ''Personality'', ''Delight/Micro-Interactions'',
      ''Accessibility'', ''Speed & Responsiveness'', ''Emotional Resonance'']"

text \<open>
  \<open>round(x, n)\<close> of the diagnostics, on the real value of the float.
\<close>

definition round_digits :: "real \<Rightarrow> nat \<Rightarrow> real" where
  "round_digits x n = of_int (py_round (x * 10 ^ n)) / 10 ^ n"

record debug =
  Final_URL :: string
  HTTP_Status :: int
  Load_Time :: real
  HTML_Size_KB :: real
  CSS_Colors_Found :: nat
  Palette_Cohesion_Score :: int

text \<open>
  \<open>analyze_site\<close> returns the pair \<open>(None, res["error"])\<close> or \<open>(scores, debug)\<close>.
  The second \<open>BeautifulSoup\<close> call is outside any \<open>try\<close>.
\<close>

datatype info = ErrorText string | Diagnostics debug

definition analyze_site :: "world \<Rightarrow> string \<Rightarrow> exn + ((string \<rightharpoonup> int) option \<times> info)" where
  "analyze_site w url =
     (case fetch_html w url 6 of
        Inl e \<Rightarrow> Inl e
      | Inr (Inl err) \<Rightarrow> Inr (None, ErrorText err)
      | Inr (Inr res) \<Rightarrow>
          (let html = page_text res;
               base_url = final_url res in
           case BeautifulSoup w html of
             Inl e \<Rightarrow> Inl e
           | Inr soup \<Rightarrow>
               (let css_text = fetch_css_assets w html base_url 3 4;
                    palette_count = count_colors (Some css_text);
                    cohesion = cohesion_from_colors (int palette_count);
                    scores =
                      [''Simplicity'' \<mapsto> clamp_score (of_int (cohesion + 8) / 2) 1 10,
                       ''Navigation Ease'' \<mapsto>
                          clamp_score (of_int (5 + (if find_first soup (\<lambda>t. tag_name t = ''nav'') \<noteq> None
                                                    then 1 else 0))) 1 10,
                       ''Personality'' \<mapsto>
                          clamp_score (of_int (cohesion
                              + (if find_first soup (\<lambda>t. tag_name t = ''link''
                                       \<and> rel_matches (\<lambda>v. v = ''icon'') (tag_get t ''rel'')) \<noteq> None
                                 then 1 else 0) + 6) / 2) 1 10,
                       ''Delight/Micro-Interactions'' \<mapsto>
                          clamp_score (of_int (5 + (if str_contains '':hover'' css_text then 1 else 0))) 1 10,
                       ''Accessibility'' \<mapsto>
                          clamp_score (of_int (6 + (if find_first soup (\<lambda>t. tag_get t ''aria-label'' \<noteq> None) \<noteq> None
                                                    then 1 else 0))) 1 10,
                       ''Speed & Responsiveness'' \<mapsto>
                          clamp_score (of_int (if elapsed res < 1 then 10 else 7)) 1 10,
                       ''Emotional Resonance'' \<mapsto> clamp_score (of_int (cohesion + 8) / 2) 1 10];
                    debug =
                      \<lparr>Final_URL = base_url, HTTP_Status = status res,
                       Load_Time = round_digits (elapsed res) 3,
                       HTML_Size_KB = round_digits (of_nat (content_size res) / 1024) 1,
                       CSS_Colors_Found = palette_count,
                       Palette_Cohesion_Score = cohesion\<rparr>
                in Inr (Some scores, Diagnostics debug))))"

section \<open>The benchmark table\<close>

text \<open>
  \<open>REFERENCE_BENCHMARKS\<close> is a module-level list of dicts, and \<open>build_table\<close> creates
  and fills dicts of its own. Dicts are therefore objects in a heap: an address below
  \<open>alloc\<close> is in use, a new dict takes the address \<open>alloc\<close>. The global list holds
  addresses.
\<close>

datatype pyval = PyStr string | PyInt int | PyNone

type_synonym dict = "string \<rightharpoonup> pyval"
type_synonym addr = nat

record pystate =
  heap :: "addr \<Rightarrow> dict"
  alloc :: addr
  REFERENCE_BENCHMARKS :: "addr list"

definition new_dict :: "dict \<Rightarrow> pystate \<Rightarrow> addr \<times> pystate" where
  "new_dict d st = (alloc st, st\<lparr>heap := (heap st)(alloc st := d), alloc := Suc (alloc st)\<rparr>)"

definition getitem :: "pystate \<Rightarrow> addr \<Rightarrow> string \<Rightarrow> exn + pyval" where
  "getitem st a k = (case heap st a k of None \<Rightarrow> Inl (KeyError k) | Some v \<Rightarrow> Inr v)"

definition setitem :: "addr \<Rightarrow> string \<Rightarrow> pyval \<Rightarrow> pystate \<Rightarrow> pystate" where
  "setitem a k v st = st\<lparr>heap := (heap st)(a := (heap st a)(k \<mapsto> v))\<rparr>"

text \<open>The five dict literals of \<open>REFERENCE_BENCHMARKS\<close>, and the state after the module has loaded.\<close>

definition REFERENCE_DATA :: "dict list" where
  "REFERENCE_DATA =
     [[''Product / UX Factor'' \<mapsto> PyStr ''Apple iOS'', ''Simplicity'' \<mapsto> PyInt 9,
       ''Navigation Ease'' \<mapsto> PyInt 9, ''Personality'' \<mapsto> PyInt 9,
       ''Delight/Micro-Interactions'' \<mapsto> PyInt 8, ''Accessibility'' \<mapsto> PyInt 8,
       ''Speed & Responsiveness'' \<mapsto> PyInt 9, ''Emotional Resonance'' \<mapsto> PyInt 9],
      [''Product / UX Factor'' \<mapsto> PyStr ''Airbnb'', ''Simplicity'' \<mapsto> PyInt 9,
       ''Navigation Ease'' \<mapsto> PyInt 9, ''Personality'' \<mapsto> PyInt 8,
       ''Delight/Micro-Interactions'' \<mapsto> PyInt 8, ''Accessibility'' \<mapsto> PyInt 9,
       ''Speed & Responsiveness'' \<mapsto> PyInt 9, ''Emotional Resonance'' \<mapsto> PyInt 8],
      [''Product / UX Factor'' \<mapsto> PyStr ''Notion'', ''Simplicity'' \<mapsto> PyInt 8,
       ''Navigation Ease'' \<mapsto> PyInt 8, ''Personality'' \<mapsto> PyInt 9,
       ''Delight/Micro-Interactions'' \<mapsto> PyInt 8, ''Accessibility'' \<mapsto> PyInt 8,
       ''Speed & Responsiveness'' \<mapsto> PyInt 8, ''Emotional Resonance'' \<mapsto> PyInt 9],
      [''Product / UX Factor'' \<mapsto> PyStr ''Tesla UI'', ''Simplicity'' \<mapsto> PyInt 8,
       ''Navigation Ease'' \<mapsto> PyInt 9, ''Personality'' \<mapsto> PyInt 9,
       ''Delight/Micro-Interactions'' \<mapsto> PyInt 9, ''Accessibility'' \<mapsto> PyInt 7,
       ''Speed & Responsiveness'' \<mapsto> PyInt 9, ''Emotional Resonance'' \<mapsto> PyInt 9],
      [''Product / UX Factor'' \<mapsto> PyStr ''Figma'', ''Simplicity'' \<mapsto> PyInt 8,
       ''Navigation Ease'' \<mapsto> PyInt 9, ''Personality'' \<mapsto> PyInt 8,
       ''Delight/Micro-Interactions'' \<mapsto> PyInt 9, ''Accessibility'' \<mapsto> PyInt 8,
       ''Speed & Responsiveness'' \<mapsto> PyInt 10, ''Emotional Resonance'' \<mapsto> PyInt 8]]"

definition initial_state :: pystate where
  "initial_state =
     \<lparr>heap = (\<lambda>a. if a < 5 then REFERENCE_DATA ! a else Map.empty), alloc = 5,
      REFERENCE_BENCHMARKS = [0, 1, 2, 3, 4]\<rparr>"

text \<open>
  The loops of \<open>build_table\<close>: \<open>row[f] = ref[f]\<close> for every factor, for every reference;
  \<open>ref[f]\<close> raises \<open>KeyError\<close> for a missing key, \<open>target_scores.get(f, None)\<close>
  does not.
\<close>

fun copy_factors :: "addr \<Rightarrow> addr \<Rightarrow> string list \<Rightarrow> pystate \<Rightarrow> (exn + unit) \<times> pystate" where
  "copy_factors ref row [] st = (Inr (), st)"
| "copy_factors ref row (f # fs) st =
     (case getitem st ref f of
        Inl e \<Rightarrow> (Inl e, st)
      | Inr v \<Rightarrow> copy_factors ref row fs (setitem row f v st))"

fun reference_rows :: "addr list \<Rightarrow> addr list \<Rightarrow> pystate \<Rightarrow> (exn + addr list) \<times> pystate" where
  "reference_rows [] rows st = (Inr rows, st)"
| "reference_rows (ref # refs) rows st =
     (case getitem st ref ''Product / UX Factor'' of
        Inl e \<Rightarrow> (Inl e, st)
      | Inr p \<Rightarrow>
          (case new_dict [''Product / UX Factor'' \<mapsto> p] st of
             (row, st1) \<Rightarrow>
               (case copy_factors ref row UX_FACTORS st1 of
                  (Inl e, st2) \<Rightarrow> (Inl e, st2)
                | (Inr u, st2) \<Rightarrow> reference_rows refs (rows @ [row]) st2)))"

definition get_or_None :: "(string \<rightharpoonup> int) \<Rightarrow> string \<Rightarrow> pyval" where
  "get_or_None d k = (case d k of None \<Rightarrow> PyNone | Some v \<Rightarrow> PyInt v)"

fun target_factors :: "addr \<Rightarrow> (string \<rightharpoonup> int) \<Rightarrow> string list \<Rightarrow> pystate \<Rightarrow> pystate" where
  "target_factors trow target_scores [] st = st"
| "target_factors trow target_scores (f # fs) st =
     target_factors trow target_scores fs (setitem trow f (get_or_None target_scores f) st)"

text \<open>
  The pandas part. A data frame is the list of its rows, each a map from column name to
  cell; \<open>pd.DataFrame(rows)\<close> reads the dicts. A \<open>None\<close> cell is a missing value.
  \<open>rank(method="min", ascending=False)\<close> gives a value one more than the number of
  larger values. \<open>sort_values(ascending=False)\<close> is modelled as the insertion sort that
  keeps rows with equal keys in their order; pandas does not promise an order among equal
  keys, and no property below depends on it.
\<close>

type_synonym dataframe = "dict list"

definition DataFrame :: "pystate \<Rightarrow> addr list \<Rightarrow> dataframe" where
  "DataFrame st rows = map (heap st) rows"

definition cell_int :: "dict \<Rightarrow> string \<Rightarrow> int" where
  "cell_int r c = (case r c of Some (PyInt v) \<Rightarrow> v | _ \<Rightarrow> 0)"

text \<open>
  \<open>df[UX_FACTORS].sum(axis=1)\<close> adds in fixed width. The numbers of a cell are Python
  \<open>int\<close>s. While every number of the frame fits 64 bits and no cell is missing, the
  columns are \<open>int64\<close> and the sum wraps around. A missing cell makes its column, and with
  it the sum, \<open>float64\<close>: every number is converted to the nearest float (a tie goes to
  the even mantissa), a missing cell counts as 0 (\<open>skipna=True\<close>, the default), and the
  floats are added. The result of a float sum is independent of the order of the additions
  when the absolute values add up to at most \<open>2 ^ 53\<close>, since then every partial sum is
  exact. A row of numbers that small is summed exactly whatever the types of the columns
  are. In every other case (a number outside 64 bits, or a float sum that depends on the
  order) the sum is what pandas makes of it: \<open>wide_sum\<close>, given the cells of the whole
  frame and the cells of the row. A float sum of integers has an integer value; the Total is
  kept as that integer.
\<close>

definition cell_opt :: "dict \<Rightarrow> string \<Rightarrow> int option" where
  "cell_opt r c = (case r c of Some (PyInt v) \<Rightarrow> Some v | _ \<Rightarrow> None)"

definition fillna0 :: "int option \<Rightarrow> int" where
  "fillna0 c = (case c of None \<Rightarrow> 0 | Some v \<Rightarrow> v)"

definition int64_range :: "int \<Rightarrow> bool" where
  "int64_range v = (- (2 ^ 63) \<le> v \<and> v < 2 ^ 63)"

definition wrap64 :: "int \<Rightarrow> int" where
  "wrap64 v = (v + 2 ^ 63) mod 2 ^ 64 - 2 ^ 63"

function shift53 :: "nat \<Rightarrow> nat" where
  "shift53 n = (if n < 2 ^ 53 then 0 else Suc (shift53 (n div 2)))"
  by pat_completeness auto
termination
  by (relation "measure id") auto

declare shift53.simps [simp del]

definition float64 :: "int \<Rightarrow> int" where
  "float64 v =
     (let n = nat \<bar>v\<bar>;
          e = shift53 n;
          q = n div 2 ^ e;
          r = n mod 2 ^ e;
          m = (if 2 ^ e < 2 * r \<or> (2 * r = 2 ^ e \<and> odd q) then q + 1 else q)
      in sgn v * int (m * 2 ^ e))"

definition sum_axis1 ::
  "(int option list list \<Rightarrow> int option list \<Rightarrow> int) \<Rightarrow> string list \<Rightarrow> dict list \<Rightarrow> dict \<Rightarrow> int" where
  "sum_axis1 wide cols df r =
     (let frame = map (\<lambda>r. map (cell_opt r) cols) df;
          row = map (cell_opt r) cols;
          vals = map fillna0 row;
          all_int64 = list_all (list_all (\<lambda>c. case c of None \<Rightarrow> True | Some v \<Rightarrow> int64_range v)) frame;
          no_missing = list_all (list_all (\<lambda>c. c \<noteq> None)) frame
      in if all_int64 \<and> no_missing then wrap64 (sum_list vals)
         else if sum_list (map abs vals) \<le> 2 ^ 53 then sum_list vals
         else if all_int64 \<and> sum_list (map (\<lambda>v. \<bar>float64 v\<bar>) vals) \<le> 2 ^ 53
           then sum_list (map float64 vals)
         else wide frame row)"

definition rank_min_desc :: "int list \<Rightarrow> int \<Rightarrow> int" where
  "rank_min_desc col v = 1 + int (length (filter (\<lambda>v'. v < v') col))"

fun insert_desc :: "string \<Rightarrow> dict \<Rightarrow> dataframe \<Rightarrow> dataframe" where
  "insert_desc col r [] = [r]"
| "insert_desc col r (x # xs) =
     (if cell_int r col < cell_int x col then x # insert_desc col r xs else r # x # xs)"

definition sort_values_desc :: "string \<Rightarrow> dataframe \<Rightarrow> dataframe" where
  "sort_values_desc col df = foldr (insert_desc col) df []"

definition df_total :: "world \<Rightarrow> dataframe \<Rightarrow> dataframe" where
  "df_total w df =
     map (\<lambda>r. r(''Total / 70'' \<mapsto> PyInt (sum_axis1 (wide_sum w) UX_FACTORS df r))) df"

definition df_rank :: "dataframe \<Rightarrow> dataframe" where
  "df_rank df =
     map (\<lambda>r. r(''Rank'' \<mapsto>
            PyInt (rank_min_desc (map (\<lambda>r. cell_int r ''Total / 70'') df)
                     (cell_int r ''Total / 70'')))) df"

definition build_table ::
  "world \<Rightarrow> string \<Rightarrow> (string \<rightharpoonup> int) \<Rightarrow> pystate \<Rightarrow> (exn + dataframe) \<times> pystate" where
  "build_table w target_label target_scores st =
     (case reference_rows (REFERENCE_BENCHMARKS st) [] st of
        (Inl e, st1) \<Rightarrow> (Inl e, st1)
      | (Inr rows, st1) \<Rightarrow>
          (case new_dict [''Product / UX Factor'' \<mapsto> PyStr target_label] st1 of
             (trow, st2) \<Rightarrow>
               (let st3 = target_factors trow target_scores UX_FACTORS st2;
                    rows = rows @ [trow];
                    df = DataFrame st3 rows;
                    df = df_total w df;
                    df = df_rank df
                in (Inr (sort_values_desc ''Total / 70'' df), st3))))"

section \<open>The page\<close>

text \<open>
  What pressing the button does: analyse, show the error or build and show the table.
\<close>

datatype display = ErrorBox string | Results dataframe "string \<rightharpoonup> int" info

definition on_analyze :: "world \<Rightarrow> string \<Rightarrow> pystate \<Rightarrow> (exn + display) \<times> pystate" where
  "on_analyze w url st =
     (case analyze_site w url of
        Inl e \<Rightarrow> (Inl e, st)
      | Inr (None, debug) \<Rightarrow>
          (Inr (ErrorBox (''Could not analyze. Error: ''
                  @ (case debug of ErrorText msg \<Rightarrow> msg | Diagnostics d \<Rightarrow> []))), st)
      | Inr (Some scores, debug) \<Rightarrow>
          (case urlparse w url of
             Inl e \<Rightarrow> (Inl e, st)
           | Inr parsed \<Rightarrow>
               (let site_label = (if netloc parsed \<noteq> [] then netloc parsed else url) in
                case build_table w site_label scores st of
                  (Inl e, st') \<Rightarrow> (Inl e, st')
                | (Inr df, st') \<Rightarrow> (Inr (Results df scores debug), st'))))"


section \<open>Sequences of calls\<close>

text \<open>
  A session is a sequence of calls, each on the state the previous one left.
  \<open>analyze_site\<close> has no access to the heap; \<open>build_table\<close> and the button handler
  return the state they leave, also when they raise.
\<close>

datatype call =
  Analyze world string | BuildTable world string "string \<rightharpoonup> int" | Click world string

fun run_call :: "call \<Rightarrow> pystate \<Rightarrow> pystate" where
  "run_call (Analyze w url) st = st"
| "run_call (BuildTable w target_label target_scores) st =
     snd (build_table w target_label target_scores st)"
| "run_call (Click w url) st = snd (on_analyze w url st)"

fun run_calls :: "call list \<Rightarrow> pystate \<Rightarrow> pystate" where
  "run_calls [] st = st"
| "run_calls (c # cs) st = run_calls cs (run_call c st)"

section \<open>Notions used in the statements\<close>

text \<open>
  A state is well formed when the global list names dicts that exist. The reference data
  of a state is the contents of those dicts, in the list's order.
\<close>

definition wf_state :: "pystate \<Rightarrow> bool" where
  "wf_state st = list_all (\<lambda>a. a < alloc st) (REFERENCE_BENCHMARKS st)"

definition ref_data :: "pystate \<Rightarrow> dict list" where
  "ref_data st = map (heap st) (REFERENCE_BENCHMARKS st)"

text \<open>
  What \<open>build_table\<close> copies out of a reference dict, when the dict has the label and all
  seven factors; and the row it builds for the target.
\<close>

definition copied :: "dict \<Rightarrow> dict" where
  "copied d = d |` insert ''Product / UX Factor'' (set UX_FACTORS)"

definition complete :: "dict \<Rightarrow> bool" where
  "complete d = list_all (\<lambda>k. d k \<noteq> None) (''Product / UX Factor'' # UX_FACTORS)"

definition target_row :: "string \<Rightarrow> (string \<rightharpoonup> int) \<Rightarrow> dict" where
  "target_row l s =
     (\<lambda>k. if k = ''Product / UX Factor'' then Some (PyStr l)
          else if k \<in> set UX_FACTORS then Some (get_or_None s k) else None)"

definition added_columns :: "string set" where
  "added_columns = {''Total / 70'', ''Rank''}"

text \<open>
  The dense ranking, as the specification words it, to compare with \<open>rank_min_desc\<close>:
  the ranks are 1, 2, 3, ... without gaps, so a value's rank is one more than the number of
  distinct larger values.
\<close>

definition dense_rank_desc :: "int list \<Rightarrow> int \<Rightarrow> int" where
  "dense_rank_desc col v = 1 + int (length (remdups (filter (\<lambda>v'. v < v') col)))"

text \<open>The sort of the table, seen on the pairs of sort key and any other cell.\<close>

fun insert_pair :: "int \<times> 'a \<Rightarrow> (int \<times> 'a) list \<Rightarrow> (int \<times> 'a) list" where
  "insert_pair p [] = [p]"
| "insert_pair p (x # xs) = (if fst p < fst x then x # insert_pair p xs else p # x # xs)"

section \<open>A concrete site\<close>

text \<open>
  A page at \<open>https://example.com\<close> that answers in 0.3 seconds, links one stylesheet with
  the text \<open>a:hover{color:#123456}\<close> and contains a \<open>nav\<close> element, the favicon link
  and an element with an \<open>aria-label\<close>.
\<close>

definition scenario_soup :: soup where
  "scenario_soup =
     [\<lparr>tag_name = ''link'', tag_attrs = [(''rel'', ''stylesheet''), (''href'', ''/s.css'')]\<rparr>,
      \<lparr>tag_name = ''link'', tag_attrs = [(''rel'', ''icon''), (''href'', ''/f.ico'')]\<rparr>,
      \<lparr>tag_name = ''nav'', tag_attrs = []\<rparr>,
      \<lparr>tag_name = ''a'', tag_attrs = [(''href'', ''/''), (''aria-label'', ''Home'')]\<rparr>]"

definition scenario_world :: world where
  "scenario_world =
     \<lparr>urlparse = (\<lambda>u. Inr \<lparr>scheme = ''https'', netloc = ''example.com''\<rparr>),
      urljoin = (\<lambda>b h. Inr (b @ h)),
      requests_get = (\<lambda>u t.
         if u = ''https://example.com'' then
           Inr \<lparr>resp_url = ''https://example.com'', status_code = 200, content = ''<html>'',
                resp_text = ''<html>'', http_error = []\<rparr>
         else if u = ''https://example.com/s.css'' then
           Inr \<lparr>resp_url = u, status_code = 200, content = ''a:hover{color:#123456}'',
                resp_text = ''a:hover{color:#123456}'', http_error = []\<rparr>
         else Inl (Raised ''connection refused'')),
      wall_time = (\<lambda>u. 3 / 10),
      BeautifulSoup = (\<lambda>h. Inr scenario_soup),
      wide_sum = (\<lambda>frame row. 0)\<rparr>"


definition scenario_scores :: "string \<rightharpoonup> int" where
  "scenario_scores =
     [''Simplicity'' \<mapsto> 9, ''Navigation Ease'' \<mapsto> 6, ''Personality'' \<mapsto> 8,
      ''Delight/Micro-Interactions'' \<mapsto> 6, ''Accessibility'' \<mapsto> 7,
      ''Speed & Responsiveness'' \<mapsto> 10, ''Emotional Resonance'' \<mapsto> 9]"

text \<open>
  The \<open>scores\<close> dict of \<open>analyze_site\<close> as a function of the six signals it is
  computed from.
\<close>

definition site_scores :: "int \<Rightarrow> bool \<Rightarrow> bool \<Rightarrow> bool \<Rightarrow> bool \<Rightarrow> bool \<Rightarrow> (string \<rightharpoonup> int)" where
  "site_scores cohesion has_nav has_icon has_hover has_aria fast =
     [''Simplicity'' \<mapsto> clamp_score (of_int (cohesion + 8) / 2) 1 10,
      ''Navigation Ease'' \<mapsto> clamp_score (of_int (5 + (if has_nav then 1 else 0))) 1 10,
      ''Personality'' \<mapsto> clamp_score (of_int (cohesion + (if has_icon then 1 else 0) + 6) / 2) 1 10,
      ''Delight/Micro-Interactions'' \<mapsto> clamp_score (of_int (5 + (if has_hover then 1 else 0))) 1 10,
      ''Accessibility'' \<mapsto> clamp_score (of_int (6 + (if has_aria then 1 else 0))) 1 10,
      ''Speed & Responsiveness'' \<mapsto> clamp_score (of_int (if fast then 10 else 7)) 1 10,
      ''Emotional Resonance'' \<mapsto> clamp_score (of_int (cohesion + 8) / 2) 1 10]"

text \<open>The scores the scenario of the specification states, and its favicon link.\<close>

definition claimed_scores :: "string \<rightharpoonup> int" where
  "claimed_scores =
     [''Simplicity'' \<mapsto> 9, ''Navigation Ease'' \<mapsto> 6, ''Personality'' \<mapsto> 9,
      ''Delight/Micro-Interactions'' \<mapsto> 6, ''Accessibility'' \<mapsto> 7,
      ''Speed & Responsiveness'' \<mapsto> 10, ''Emotional Resonance'' \<mapsto> 9]"

definition favicon_link :: tag where
  "favicon_link = \<lparr>tag_name = ''link'', tag_attrs = [(''rel'', ''icon''), (''href'', ''/f.ico'')]\<rparr>"

text \<open>
  The site asked for with the URL \<open>http://[::1\<close>, an opening bracket without the closing
  one: \<open>urlparse\<close> raises \<open>ValueError\<close> for it.
\<close>

definition bad_url_world :: world where
  "bad_url_world = scenario_world\<lparr>urlparse := (\<lambda>u.
     if u = ''http://[::1'' then Inl (Raised ''Invalid IPv6 URL'')
     else Inr \<lparr>scheme = ''https'', netloc = ''example.com''\<rparr>)\<rparr>"

text \<open>
  A stylesheet survives when its request returns an \<open>ok\<close> response with a non-empty
  text; what is kept of it is the first 50000 characters of that text. The requested
  stylesheets are the list \<open>hrefs\<close> of \<open>fetch_css_assets\<close> after the slice.
\<close>

definition survives :: "world \<Rightarrow> real \<Rightarrow> string \<Rightarrow> bool" where
  "survives w timeout h =
     (case requests_get w h timeout of Inl e \<Rightarrow> False | Inr r \<Rightarrow> ok r \<and> resp_text r \<noteq> [])"

definition kept_body :: "world \<Rightarrow> real \<Rightarrow> string \<Rightarrow> string" where
  "kept_body w timeout h =
     (case requests_get w h timeout of Inl e \<Rightarrow> [] | Inr r \<Rightarrow> take 50000 (resp_text r))"

definition requested_stylesheets :: "world \<Rightarrow> string \<Rightarrow> string \<Rightarrow> int \<Rightarrow> string list" where
  "requested_stylesheets w html base_url limit =
     (case BeautifulSoup w html of
        Inl e \<Rightarrow> []
      | Inr soup \<Rightarrow>
          (case collect_hrefs w base_url (find_all soup is_stylesheet_link) [] of
             Inl e \<Rightarrow> []
           | Inr hrefs \<Rightarrow> py_slice_to limit hrefs))"

text \<open>
  The UTF-8 encoding of a text of code points below 256, and a stylesheet whose text is
  50000 times the letter e with acute accent (code point 233, two bytes in UTF-8).
\<close>

definition utf8 :: "string \<Rightarrow> string" where
  "utf8 s = concat (map (\<lambda>c. if (of_char c :: nat) < 128 then [c]
                              else [char_of (192 + (of_char c :: nat) div 64),
                                    char_of (128 + (of_char c :: nat) mod 64)]) s)"

definition multibyte_world :: world where
  "multibyte_world = scenario_world\<lparr>requests_get := (\<lambda>u t.
     if u = ''https://example.com/s.css'' then
       Inr \<lparr>resp_url = u, status_code = 200, content = utf8 (replicate 50000 (CHR 0xE9)),
            resp_text = replicate 50000 (CHR 0xE9), http_error = []\<rparr>
     else Inl (Raised ''connection refused''))\<rparr>"

text \<open>The colour tokens of a text: what the two \<open>findall\<close> calls of \<open>count_colors\<close> return.\<close>

definition color_tokens :: "string \<Rightarrow> string list" where
  "color_tokens css = findall_hex css @ findall_rgb css"

section \<open>Properties of the scoring helpers\<close>

lemma py_round_near: "\<bar>of_int (py_round x) - x\<bar> \<le> 1 / 2"
proof -
  have "of_int \<lfloor>x\<rfloor> \<le> x" "x < of_int \<lfloor>x\<rfloor> + 1"
    by linarith+
  then show ?thesis
    by (auto simp: py_round_def Let_def)
qed

lemma py_round_of_int: "py_round (of_int n) = n"
  by (simp add: py_round_def)

text \<open>
  Claim C4. For every non-negative colour count \<open>c\<close>,
  \<open>cohesion_from_colors c\<close> is one of 10, 8, 6, 4, 2; it never increases when the count
  grows; and it follows the thresholds \<open>c \<le> 6 \<rightarrow> 10\<close>, \<open>c \<le> 12 \<rightarrow> 8\<close>,
  \<open>c \<le> 24 \<rightarrow> 6\<close>, \<open>c \<le> 48 \<rightarrow> 4\<close>, otherwise 2.
\<close>

theorem cohesion_from_colors_steps:
  "0 \<le> c \<Longrightarrow>
     cohesion_from_colors c \<in> {10, 8, 6, 4, 2}
     \<and> (\<forall>c'. c \<le> c' \<longrightarrow> cohesion_from_colors c' \<le> cohesion_from_colors c)
     \<and> cohesion_from_colors c =
         (if c \<le> 6 then 10 else if c \<le> 12 then 8 else if c \<le> 24 then 6
          else if c \<le> 48 then 4 else 2)"
  by (auto simp: cohesion_from_colors_def)

theorem cohesion_from_colors_steps_witness:
  "(0::int) \<le> 7 \<and> (7::int) \<le> 30 \<and> cohesion_from_colors 7 = 8
   \<and> cohesion_from_colors 7 \<in> {10, 8, 6, 4, 2}
   \<and> cohesion_from_colors 30 \<le> cohesion_from_colors 7"
proof -
  have h: "(0::int) \<le> 7" by simp
  note r = cohesion_from_colors_steps [OF h]
  from r have "cohesion_from_colors 7 = 8" by simp
  moreover from r have "cohesion_from_colors 7 \<in> {10, 8, 6, 4, 2}" by blast
  moreover from r have "\<forall>c'. 7 \<le> c' \<longrightarrow> cohesion_from_colors c' \<le> cohesion_from_colors 7"
    by blast
  then have "cohesion_from_colors 30 \<le> cohesion_from_colors 7"
    by (rule allE [where x = 30]) simp
  ultimately show ?thesis by simp
qed

text \<open>
  Claim C5. For every score \<open>s\<close>, \<open>clamp_score s\<close> with the default bounds lies in
  \<open>[1, 10]\<close> and is \<open>round(s)\<close> saturated to those bounds, that is
  \<open>max(1, min(10, round(s)))\<close>, where \<open>round(s)\<close> is an integer nearest to \<open>s\<close>:
  it is \<open>round(s)\<close> itself when that lies within the bounds, 1 below them and 10 above.
\<close>

theorem clamp_score_saturates:
  "1 \<le> clamp_score s 1 10 \<and> clamp_score s 1 10 \<le> 10
   \<and> clamp_score s 1 10 = max 1 (min 10 (py_round s))
   \<and> \<bar>of_int (py_round s) - s\<bar> \<le> 1 / 2
   \<and> (if py_round s < 1 then clamp_score s 1 10 = 1
       else if 10 < py_round s then clamp_score s 1 10 = 10
       else clamp_score s 1 10 = py_round s)"
  using py_round_near [of s] by (simp add: clamp_score_def)

theorem clamp_score_saturates_witness:
  "clamp_score (17 / 2) 1 10 = 8 \<and> py_round (17 / 2) = 8
   \<and> clamp_score 12 1 10 = 10 \<and> clamp_score (- 3) 1 10 = 1"
proof -
  have "py_round (17 / 2) = 8" "py_round 12 = 12" "py_round (- 3) = - 3"
    by (simp_all add: py_round_def)
  with clamp_score_saturates [of "17 / 2"] clamp_score_saturates [of 12]
    clamp_score_saturates [of "- 3"]
  show ?thesis by simp
qed

section \<open>The heap during build_table\<close>

lemma copy_factors_frame:
  "copy_factors ref row fs st = (r, st') \<Longrightarrow>
     alloc st' = alloc st \<and> REFERENCE_BENCHMARKS st' = REFERENCE_BENCHMARKS st
     \<and> (\<forall>a. a \<noteq> row \<longrightarrow> heap st' a = heap st a)"
proof (induction fs arbitrary: st)
  case Nil
  then show ?case by simp
next
  case (Cons f fs)
  show ?case
  proof (cases "getitem st ref f")
    case (Inl e)
    with Cons.prems show ?thesis by simp
  next
    case (Inr v)
    with Cons.prems have "copy_factors ref row fs (setitem row f v st) = (r, st')"
      by simp
    from Cons.IH [OF this] show ?thesis
      by (simp add: setitem_def)
  qed
qed

lemma restrict_step:
  assumes "d f = Some v"
  shows "m(f \<mapsto> v) ++ (d |` S) = m ++ (d |` insert f S)"
  using assms by (auto simp: map_add_def restrict_map_def fun_eq_iff split: option.splits)

lemma copy_factors_value:
  assumes "ref \<noteq> row" and "set fs \<subseteq> dom (heap st ref)"
  shows "copy_factors ref row fs st
           = (Inr (), st\<lparr>heap := (heap st)(row := heap st row ++ (heap st ref |` set fs))\<rparr>)"
  using assms
proof (induction fs arbitrary: st)
  case Nil
  then show ?case by simp
next
  case (Cons f fs)
  from Cons.prems obtain v where v: "heap st ref f = Some v"
    by auto
  define st1 where "st1 = setitem row f v st"
  have hr: "heap st1 row = (heap st row)(f \<mapsto> v)"
    by (simp add: st1_def setitem_def)
  have h1: "heap st1 ref = heap st ref"
    using Cons.prems(1) by (simp add: st1_def setitem_def)
  have "set fs \<subseteq> dom (heap st1 ref)"
    using Cons.prems(2) h1 by simp
  from Cons.IH [OF Cons.prems(1) this]
  have ih: "copy_factors ref row fs st1
          = (Inr (), st1\<lparr>heap := (heap st1)(row := heap st1 row ++ (heap st1 ref |` set fs))\<rparr>)" .
  have b: "heap st1 row ++ (heap st1 ref |` set fs) = heap st row ++ (heap st ref |` set (f # fs))"
    using restrict_step [of "heap st ref" f v "heap st row" "set fs"] v by (simp add: hr h1)
  have eq: "st1\<lparr>heap := (heap st1)(row := heap st1 row ++ (heap st1 ref |` set fs))\<rparr>
          = st\<lparr>heap := (heap st)(row := heap st row ++ (heap st ref |` set (f # fs)))\<rparr>"
    unfolding b by (simp add: st1_def setitem_def)
  have g: "getitem st ref f = Inr v"
    using v by (simp add: getitem_def)
  have "copy_factors ref row (f # fs) st = copy_factors ref row fs st1"
    by (simp add: g st1_def)
  also note ih
  also note eq
  finally show ?case .
qed

lemma product_not_factor: "''Product / UX Factor'' \<notin> set UX_FACTORS"
  by (simp add: UX_FACTORS_def)

lemma reference_rows_frame:
  "reference_rows refs rows st = (r, st') \<Longrightarrow>
     alloc st \<le> alloc st' \<and> REFERENCE_BENCHMARKS st' = REFERENCE_BENCHMARKS st
     \<and> (\<forall>a<alloc st. heap st' a = heap st a)"
proof (induction refs arbitrary: rows st)
  case Nil
  then show ?case by simp
next
  case (Cons ref refs)
  show ?case
  proof (cases "getitem st ref ''Product / UX Factor''")
    case (Inl e)
    with Cons.prems show ?thesis by simp
  next
    case (Inr p)
    let ?st1 = "snd (new_dict [''Product / UX Factor'' \<mapsto> p] st)"
    obtain r2 st2 where c: "copy_factors ref (alloc st) UX_FACTORS ?st1 = (r2, st2)"
      by (cases "copy_factors ref (alloc st) UX_FACTORS ?st1")
    note f2 = copy_factors_frame [OF c]
    have s2: "alloc st2 = Suc (alloc st)" "REFERENCE_BENCHMARKS st2 = REFERENCE_BENCHMARKS st"
      "\<forall>a<alloc st. heap st2 a = heap st a"
      using f2 by (simp_all add: new_dict_def)
    show ?thesis
    proof (cases r2)
      case (Inl e)
      with Cons.prems Inr c have "st' = st2"
        by (simp add: new_dict_def)
      with s2 show ?thesis by simp
    next
      case (Inr u)
      with Cons.prems \<open>getitem st ref ''Product / UX Factor'' = Inr p\<close> c
      have "reference_rows refs (rows @ [alloc st]) st2 = (r, st')"
        by (simp add: new_dict_def)
      from Cons.IH [OF this] s2 show ?thesis by simp
    qed
  qed
qed

lemma reference_rows_value:
  assumes "list_all (\<lambda>a. a < alloc st \<and> complete (heap st a)) refs"
    and "list_all (\<lambda>a. a < alloc st) rows"
  shows "\<exists>rows' st'. reference_rows refs rows st = (Inr rows', st')
           \<and> map (heap st') rows' = map (heap st) rows @ map (\<lambda>a. copied (heap st a)) refs
           \<and> list_all (\<lambda>a. a < alloc st') rows'"
  using assms
proof (induction refs arbitrary: rows st)
  case Nil
  then show ?case by simp
next
  case (Cons ref refs)
  from Cons.prems(1) have lt: "ref < alloc st" and cp: "complete (heap st ref)"
    by simp_all
  from cp obtain p where p: "heap st ref ''Product / UX Factor'' = Some p"
    by (auto simp: complete_def)
  from cp have sub: "set UX_FACTORS \<subseteq> dom (heap st ref)"
    by (auto simp: complete_def list_all_iff)
  define row where "row = alloc st"
  define st1 where "st1 = snd (new_dict [''Product / UX Factor'' \<mapsto> p] st)"
  have nd: "new_dict [''Product / UX Factor'' \<mapsto> p] st = (row, st1)"
    by (simp add: new_dict_def row_def st1_def)
  have h1: "heap st1 ref = heap st ref"
    using lt by (simp add: new_dict_def st1_def)
  have ne: "ref \<noteq> row"
    using lt by (simp add: row_def)
  define st2 where
    "st2 = st1\<lparr>heap := (heap st1)(row := heap st1 row ++ (heap st1 ref |` set UX_FACTORS))\<rparr>"
  have c: "copy_factors ref row UX_FACTORS st1 = (Inr (), st2)"
    unfolding st2_def using sub h1 by (intro copy_factors_value [OF ne]) simp
  have a2: "alloc st2 = Suc (alloc st)"
    by (simp add: new_dict_def st2_def st1_def)
  have old: "heap st2 a = heap st a" if "a < alloc st" for a
    using that by (simp add: new_dict_def st2_def st1_def row_def)
  have new: "heap st2 row = copied (heap st ref)"
    using p ne by (auto simp: new_dict_def copied_def map_add_def restrict_map_def fun_eq_iff
        st2_def st1_def row_def product_not_factor split: option.splits)
  have p1: "list_all (\<lambda>a. a < alloc st2 \<and> complete (heap st2 a)) refs"
    using Cons.prems(1) old a2 by (auto simp: list_all_iff)
  have p2: "list_all (\<lambda>a. a < alloc st2) (rows @ [row])"
    using Cons.prems(2) a2 by (auto simp: list_all_iff row_def)
  from Cons.IH [OF p1 p2] obtain rows' st' where
    r: "reference_rows refs (rows @ [row]) st2 = (Inr rows', st')"
    and m: "map (heap st') rows' = map (heap st2) (rows @ [row]) @ map (\<lambda>a. copied (heap st2 a)) refs"
    and l: "list_all (\<lambda>a. a < alloc st') rows'"
    by blast
  have g: "getitem st ref ''Product / UX Factor'' = Inr p"
    using p by (simp add: getitem_def)
  have e: "reference_rows (ref # refs) rows st = (Inr rows', st')"
    by (simp add: g nd c r)
  have m1: "map (heap st2) rows = map (heap st) rows"
    using Cons.prems(2) old by (auto simp: list_all_iff)
  have m2: "map (\<lambda>a. copied (heap st2 a)) refs = map (\<lambda>a. copied (heap st a)) refs"
    using Cons.prems(1) old by (auto simp: list_all_iff)
  have "map (heap st') rows' = map (heap st) rows @ map (\<lambda>a. copied (heap st a)) (ref # refs)"
    by (simp add: m m1 m2 new)
  with e l show ?case by blast
qed

lemma target_factors_frame:
  "alloc (target_factors trow s fs st) = alloc st
   \<and> REFERENCE_BENCHMARKS (target_factors trow s fs st) = REFERENCE_BENCHMARKS st
   \<and> (\<forall>a. a \<noteq> trow \<longrightarrow> heap (target_factors trow s fs st) a = heap st a)"
  by (induction fs arbitrary: st) (simp_all add: setitem_def)

lemma target_factors_value:
  "distinct fs \<Longrightarrow>
   heap (target_factors trow s fs st) trow k
     = (if k \<in> set fs then Some (get_or_None s k) else heap st trow k)"
  by (induction fs arbitrary: st) (auto simp: setitem_def)

lemma distinct_UX_FACTORS: "distinct UX_FACTORS"
  by (simp add: UX_FACTORS_def)

lemma build_table_value:
  assumes wf: "wf_state st" and cp: "list_all complete (ref_data st)"
  shows "\<exists>st'. build_table w l s st
           = (Inr (sort_values_desc ''Total / 70''
                    (df_rank (df_total w (map copied (ref_data st) @ [target_row l s])))), st')"
proof -
  have "list_all (\<lambda>a. a < alloc st \<and> complete (heap st a)) (REFERENCE_BENCHMARKS st)"
    using wf cp by (auto simp: wf_state_def ref_data_def list_all_iff)
  from reference_rows_value [OF this, of "[]"] obtain rows st1 where
    r: "reference_rows (REFERENCE_BENCHMARKS st) [] st = (Inr rows, st1)"
    and m: "map (heap st1) rows = map copied (ref_data st)"
    and l: "list_all (\<lambda>a. a < alloc st1) rows"
    by (auto simp: ref_data_def comp_def)
  define trow where "trow = alloc st1"
  define st2 where "st2 = snd (new_dict [''Product / UX Factor'' \<mapsto> PyStr l] st1)"
  define st3 where "st3 = target_factors trow s UX_FACTORS st2"
  have nd: "new_dict [''Product / UX Factor'' \<mapsto> PyStr l] st1 = (trow, st2)"
    by (simp add: new_dict_def trow_def st2_def)
  have h2: "heap st2 = (heap st1)(trow := [''Product / UX Factor'' \<mapsto> PyStr l])"
    by (simp add: new_dict_def trow_def st2_def)
  have old: "heap st3 a = heap st1 a" if "a \<noteq> trow" for a
    using that target_factors_frame [of trow s UX_FACTORS st2] by (simp add: st3_def h2)
  have "heap st3 trow k = target_row l s k" for k
    using target_factors_value [OF distinct_UX_FACTORS, of trow s st2 k]
    by (simp add: st3_def h2 target_row_def product_not_factor)
  then have new: "heap st3 trow = target_row l s"
    by (rule ext)
  have "map (heap st3) rows = map (heap st1) rows"
    using l old by (auto simp: list_all_iff trow_def)
  with m new have "DataFrame st3 (rows @ [trow]) = map copied (ref_data st) @ [target_row l s]"
    by (simp add: DataFrame_def)
  then show ?thesis
    by (simp add: build_table_def r nd Let_def flip: st3_def)
qed

lemma build_table_frame:
  assumes "build_table w l s st = (r, st')"
  shows "alloc st \<le> alloc st' \<and> REFERENCE_BENCHMARKS st' = REFERENCE_BENCHMARKS st
         \<and> (\<forall>a<alloc st. heap st' a = heap st a)"
proof -
  obtain r1 st1 where r1: "reference_rows (REFERENCE_BENCHMARKS st) [] st = (r1, st1)"
    by (cases "reference_rows (REFERENCE_BENCHMARKS st) [] st")
  note f1 = reference_rows_frame [OF r1]
  show ?thesis
  proof (cases r1)
    case (Inl e)
    with assms r1 have "st' = st1"
      by (simp add: build_table_def)
    with f1 show ?thesis by simp
  next
    case (Inr rows)
    define st2 where "st2 = snd (new_dict [''Product / UX Factor'' \<mapsto> PyStr l] st1)"
    from assms r1 Inr have "st' = target_factors (alloc st1) s UX_FACTORS st2"
      by (auto simp: build_table_def new_dict_def Let_def st2_def)
    with target_factors_frame [of "alloc st1" s UX_FACTORS st2]
    have "alloc st' = Suc (alloc st1)" "REFERENCE_BENCHMARKS st' = REFERENCE_BENCHMARKS st1"
      "\<forall>a<alloc st1. heap st' a = heap st1 a"
      by (simp_all add: st2_def new_dict_def)
    with f1 show ?thesis by simp
  qed
qed

lemma build_table_preserves:
  assumes "wf_state st" and "build_table w l s st = (r, st')"
  shows "wf_state st' \<and> ref_data st' = ref_data st"
  using build_table_frame [OF assms(2)] assms(1)
  by (auto simp: wf_state_def ref_data_def list_all_iff)

section \<open>Totals, ranks and order of the table\<close>

lemma mset_insert_desc: "mset (insert_desc c r xs) = add_mset r (mset xs)"
  by (induction xs) auto

lemma mset_sort_values_desc: "mset (sort_values_desc c df) = mset df"
  by (induction df) (simp_all add: sort_values_desc_def mset_insert_desc)

lemma set_insert_desc: "set (insert_desc c r xs) = insert r (set xs)"
  using mset_insert_desc [of c r xs, THEN arg_cong, of set_mset] by simp

lemma sorted_insert_desc:
  "sorted_wrt (\<lambda>a b. cell_int b c \<le> cell_int a c) xs \<Longrightarrow>
   sorted_wrt (\<lambda>a b. cell_int b c \<le> cell_int a c) (insert_desc c r xs)"
  by (induction xs) (auto simp: set_insert_desc)

lemma sorted_sort_values_desc:
  "sorted_wrt (\<lambda>a b. cell_int b c \<le> cell_int a c) (sort_values_desc c df)"
proof (induction df)
  case Nil
  show ?case by (simp add: sort_values_desc_def)
next
  case (Cons r df)
  then show ?case
    using sorted_insert_desc [of c "sort_values_desc c df" r]
    by (simp add: sort_values_desc_def)
qed

lemma total_df_total:
  "map (\<lambda>r. cell_int r ''Total / 70'') (df_total w df)
     = map (sum_axis1 (wide_sum w) UX_FACTORS df) df"
  by (simp add: df_total_def cell_int_def)

lemma total_df_rank:
  "map (\<lambda>r. cell_int r ''Total / 70'') (df_rank df) = map (\<lambda>r. cell_int r ''Total / 70'') df"
  by (simp add: df_rank_def cell_int_def)

lemma rank_df_rank:
  "r \<in> set (df_rank df) \<Longrightarrow>
   cell_int r ''Rank'' = rank_min_desc (map (\<lambda>r. cell_int r ''Total / 70'') df) (cell_int r ''Total / 70'')"
  by (auto simp: df_rank_def cell_int_def)

lemma rank_min_desc_perm:
  assumes "mset t = mset df"
  shows "rank_min_desc (map f t) v = rank_min_desc (map f df) v"
proof -
  have "mset (filter (\<lambda>v'. v < v') (map f t)) = mset (filter (\<lambda>v'. v < v') (map f df))"
  proof -
    have "mset (map f t) = mset (map f df)"
      using assms by (metis mset_map)
    then show ?thesis
      by (metis mset_filter)
  qed
  then have "length (filter (\<lambda>v'. v < v') (map f t)) = length (filter (\<lambda>v'. v < v') (map f df))"
    by (rule mset_eq_length)
  then show ?thesis
    by (simp add: rank_min_desc_def)
qed

lemma rank_min_desc_rows:
  "rank_min_desc (map f t) v = 1 + int (length (filter (\<lambda>r'. v < f r') t))"
  by (simp add: rank_min_desc_def filter_map comp_def)

lemma sorted_table_ranks:
  assumes "t = sort_values_desc ''Total / 70'' (df_rank df)"
  shows "list_all (\<lambda>r. cell_int r ''Rank''
            = 1 + int (length (filter (\<lambda>r'. cell_int r ''Total / 70'' < cell_int r' ''Total / 70'') t))) t"
proof -
  have p: "mset t = mset (df_rank df)"
    using assms by (simp add: mset_sort_values_desc)
  have "cell_int r ''Rank''
          = 1 + int (length (filter (\<lambda>r'. cell_int r ''Total / 70'' < cell_int r' ''Total / 70'') t))"
    if "r \<in> set t" for r
  proof -
    from that p have "r \<in> set (df_rank df)"
      by (metis set_mset_mset)
    from rank_df_rank [OF this]
    have "cell_int r ''Rank''
            = rank_min_desc (map (\<lambda>r. cell_int r ''Total / 70'') (df_rank df)) (cell_int r ''Total / 70'')"
      by (simp add: total_df_rank)
    also have "\<dots> = rank_min_desc (map (\<lambda>r. cell_int r ''Total / 70'') t) (cell_int r ''Total / 70'')"
      using rank_min_desc_perm [OF p] by simp
    finally show ?thesis
      by (simp add: rank_min_desc_rows)
  qed
  then show ?thesis
    by (simp add: list_all_iff)
qed

lemma strip_added:
  assumes "list_all (\<lambda>r. r ''Total / 70'' = None \<and> r ''Rank'' = None) rows"
  shows "map (\<lambda>r. r |` (- added_columns)) (df_rank (df_total w rows)) = rows"
proof -
  have "(r(''Total / 70'' \<mapsto> x, ''Rank'' \<mapsto> y)) |` (- added_columns) = r"
    if "r ''Total / 70'' = None" "r ''Rank'' = None" for r :: dict and x y
    using that by (auto simp: restrict_map_def added_columns_def fun_eq_iff)
  then show ?thesis
    using assms by (simp add: df_rank_def df_total_def list_all_iff map_idI)
qed

lemma REFERENCE_DATA_keys:
  "k \<notin> insert ''Product / UX Factor'' (set UX_FACTORS) \<Longrightarrow>
   list_all (\<lambda>d. d k = None) REFERENCE_DATA"
  by (simp add: REFERENCE_DATA_def UX_FACTORS_def)

lemma copied_REFERENCE_DATA: "map copied REFERENCE_DATA = REFERENCE_DATA"
proof -
  have "copied d = d" if d: "d \<in> set REFERENCE_DATA" for d
  proof
    fix k
    show "copied d k = d k"
    proof (cases "k \<in> insert ''Product / UX Factor'' (set UX_FACTORS)")
      case True
      then show ?thesis
        unfolding copied_def by (rule restrict_in)
    next
      case False
      from REFERENCE_DATA_keys [OF this] d have "d k = None"
        by (simp add: list_all_iff)
      with False show ?thesis
        unfolding copied_def by (simp add: restrict_out)
    qed
  qed
  then show ?thesis
    by (simp add: map_idI)
qed

lemma complete_REFERENCE_DATA: "list_all complete REFERENCE_DATA"
  by (simp add: REFERENCE_DATA_def complete_def UX_FACTORS_def)

lemma plain_REFERENCE_DATA:
  "list_all (\<lambda>r. r ''Total / 70'' = None \<and> r ''Rank'' = None) REFERENCE_DATA"
  by (simp add: REFERENCE_DATA_def)

lemma plain_target_row: "target_row l s ''Total / 70'' = None \<and> target_row l s ''Rank'' = None"
  by (simp add: target_row_def UX_FACTORS_def)

lemma wf_initial_state: "wf_state initial_state"
  by (simp add: wf_state_def initial_state_def)

lemma ref_data_initial_state: "ref_data initial_state = REFERENCE_DATA"
  by (simp add: ref_data_def initial_state_def REFERENCE_DATA_def)

lemma wrap64_id: "- (2 ^ 63) \<le> v \<Longrightarrow> v < 2 ^ 63 \<Longrightarrow> wrap64 v = v"
  by (simp add: wrap64_def)

lemma fillna0_cell_opt: "fillna0 (cell_opt r c) = cell_int r c"
  by (simp add: fillna0_def cell_opt_def cell_int_def split: option.splits pyval.splits)

lemma sum_axis1_exact:
  assumes "sum_list (map (\<lambda>c. \<bar>cell_int r c\<bar>) cols) \<le> 2 ^ 53"
  shows "sum_axis1 wide cols df r = sum_list (map (cell_int r) cols)"
proof -
  have v: "map fillna0 (map (cell_opt r) cols) = map (cell_int r) cols"
    by (simp add: fillna0_cell_opt)
  have a: "map abs (map (cell_int r) cols) = map (\<lambda>c. \<bar>cell_int r c\<bar>) cols"
    by simp
  have "\<bar>sum_list (map (cell_int r) cols)\<bar> \<le> sum_list (map abs (map (cell_int r) cols))"
    by (rule sum_list_abs)
  with assms have "\<bar>sum_list (map (cell_int r) cols)\<bar> \<le> 2 ^ 53"
    unfolding a by linarith
  then have "- (2 ^ 63) \<le> sum_list (map (cell_int r) cols)"
    and "sum_list (map (cell_int r) cols) < 2 ^ 63"
    by (simp_all add: abs_le_iff)
  then have "wrap64 (sum_list (map (cell_int r) cols)) = sum_list (map (cell_int r) cols)"
    by (rule wrap64_id)
  with assms show ?thesis
    unfolding sum_axis1_def Let_def v a by simp
qed

lemma reference_cells:
  "map (\<lambda>r. map (cell_int r) UX_FACTORS) REFERENCE_DATA
     = [[9, 9, 9, 8, 8, 9, 9], [9, 9, 8, 8, 9, 9, 8], [8, 8, 9, 8, 8, 8, 9],
        [8, 9, 9, 9, 7, 9, 9], [8, 9, 8, 9, 8, 10, 8]]"
  by (simp add: REFERENCE_DATA_def UX_FACTORS_def cell_int_def)

lemma reference_totals:
  "map (sum_axis1 wide UX_FACTORS df) REFERENCE_DATA = [61, 60, 58, 60, 60]"
proof -
  have small: "sum_list (map (\<lambda>c. \<bar>cell_int r c\<bar>) UX_FACTORS) \<le> 2 ^ 53"
    if "r \<in> set REFERENCE_DATA" for r
  proof -
    define xs where "xs = map (cell_int r) UX_FACTORS"
    from that have "xs \<in> set (map (\<lambda>r. map (cell_int r) UX_FACTORS) REFERENCE_DATA)"
      unfolding xs_def by (simp only: set_map) (rule imageI)
    then have "sum_list (map abs xs) \<le> 2 ^ 53"
      unfolding reference_cells by auto
    then show ?thesis
      by (simp add: xs_def comp_def)
  qed
  have "map (sum_axis1 wide UX_FACTORS df) REFERENCE_DATA
          = map (\<lambda>r. sum_list (map (cell_int r) UX_FACTORS)) REFERENCE_DATA"
    using small by (simp add: sum_axis1_exact)
  also have "\<dots> = map sum_list (map (\<lambda>r. map (cell_int r) UX_FACTORS) REFERENCE_DATA)"
    by simp
  also have "\<dots> = [61, 60, 58, 60, 60]"
    unfolding reference_cells by simp
  finally show ?thesis .
qed

lemma target_cells:
  "map (cell_int (target_row l s)) UX_FACTORS = map (\<lambda>f. case s f of None \<Rightarrow> 0 | Some v \<Rightarrow> v) UX_FACTORS"
proof -
  have "cell_int (target_row l s) f = (case s f of None \<Rightarrow> 0 | Some v \<Rightarrow> v)"
    if "f \<in> set UX_FACTORS" for f
    using that product_not_factor
    by (auto simp: cell_int_def target_row_def get_or_None_def split: option.splits)
  then show ?thesis
    by simp
qed

lemma target_total:
  assumes "sum_list (map (\<lambda>f. \<bar>case s f of None \<Rightarrow> 0 | Some v \<Rightarrow> v\<bar>) UX_FACTORS) \<le> 2 ^ 53"
  shows "sum_axis1 wide UX_FACTORS df (target_row l s)
           = sum_list (map (\<lambda>f. case s f of None \<Rightarrow> 0 | Some v \<Rightarrow> v) UX_FACTORS)"
proof -
  have "sum_list (map (\<lambda>c. \<bar>cell_int (target_row l s) c\<bar>) UX_FACTORS)
          = sum_list (map abs (map (cell_int (target_row l s)) UX_FACTORS))"
    by (simp add: comp_def)
  also have "\<dots> = sum_list (map (\<lambda>f. \<bar>case s f of None \<Rightarrow> 0 | Some v \<Rightarrow> v\<bar>) UX_FACTORS)"
    unfolding target_cells by (simp add: comp_def)
  finally have "sum_list (map (\<lambda>c. \<bar>cell_int (target_row l s) c\<bar>) UX_FACTORS) \<le> 2 ^ 53"
    using assms by simp
  from sum_axis1_exact [OF this] show ?thesis
    unfolding target_cells .
qed

lemma build_table_reference:
  assumes "wf_state st" and "ref_data st = REFERENCE_DATA"
  shows "\<exists>st'. build_table w l s st
           = (Inr (sort_values_desc ''Total / 70''
                    (df_rank (df_total w (REFERENCE_DATA @ [target_row l s])))), st')"
  using build_table_value [OF assms(1), where w = w and l = l and s = s] assms(2)
  by (simp add: complete_REFERENCE_DATA copied_REFERENCE_DATA)

lemma rank_df_rank_map:
  "map (\<lambda>r. cell_int r ''Rank'') (df_rank df)
     = map (rank_min_desc (map (\<lambda>r. cell_int r ''Total / 70'') df))
         (map (\<lambda>r. cell_int r ''Total / 70'') df)"
  by (simp add: df_rank_def cell_int_def comp_def)

lemma insert_desc_pairs:
  "map (\<lambda>r. (cell_int r c, f r)) (insert_desc c r xs)
     = insert_pair (cell_int r c, f r) (map (\<lambda>r. (cell_int r c, f r)) xs)"
  by (induction xs) auto

lemma sort_values_desc_pairs:
  "map (\<lambda>r. (cell_int r c, f r)) (sort_values_desc c df)
     = foldr insert_pair (map (\<lambda>r. (cell_int r c, f r)) df) []"
  by (induction df) (simp_all add: sort_values_desc_def insert_desc_pairs)

lemma scenario_total: "sum_axis1 wide UX_FACTORS df (target_row l scenario_scores) = 55"
proof -
  have "sum_list (map (\<lambda>f. \<bar>case scenario_scores f of None \<Rightarrow> 0 | Some v \<Rightarrow> v\<bar>) UX_FACTORS)
          \<le> 2 ^ 53"
    by (simp add: scenario_scores_def UX_FACTORS_def)
  from target_total [OF this, of wide df l]
  have "sum_axis1 wide UX_FACTORS df (target_row l scenario_scores)
          = sum_list (map (\<lambda>f. case scenario_scores f of None \<Rightarrow> 0 | Some v \<Rightarrow> v) UX_FACTORS)" .
  also have "\<dots> = 55"
    by (simp add: scenario_scores_def UX_FACTORS_def)
  finally show ?thesis .
qed

lemma scenario_table:
  "map (\<lambda>r. (cell_int r ''Total / 70'', cell_int r ''Rank''))
     (sort_values_desc ''Total / 70''
        (df_rank (df_total w (REFERENCE_DATA @ [target_row l scenario_scores]))))
   = [(61, 1), (60, 2), (60, 2), (60, 2), (58, 5), (55, 6)]"
proof -
  define df where "df = df_rank (df_total w (REFERENCE_DATA @ [target_row l scenario_scores]))"
  have t: "map (\<lambda>r. cell_int r ''Total / 70'') df = [61, 60, 58, 60, 60, 55]"
    by (simp add: df_def total_df_rank total_df_total reference_totals scenario_total)
  have r: "map (\<lambda>r. cell_int r ''Rank'') df = [1, 2, 5, 2, 2, 6]"
    unfolding df_def rank_df_rank_map
    by (simp add: total_df_total reference_totals scenario_total rank_min_desc_def)
  have "map (\<lambda>r. (cell_int r ''Total / 70'', cell_int r ''Rank'')) df
          = zip (map (\<lambda>r. cell_int r ''Total / 70'') df) (map (\<lambda>r. cell_int r ''Rank'') df)"
    by (simp add: zip_map_map zip_same_conv_map)
  then have "map (\<lambda>r. (cell_int r ''Total / 70'', cell_int r ''Rank'')) df
          = [(61, 1), (60, 2), (58, 5), (60, 2), (60, 2), (55, 6)]"
    by (simp add: t r)
  then show ?thesis
    unfolding df_def [symmetric] sort_values_desc_pairs by simp
qed


lemma build_table_keeps:
  assumes "wf_state st"
  shows "wf_state (snd (build_table w l s st)) \<and> ref_data (snd (build_table w l s st)) = ref_data st
         \<and> REFERENCE_BENCHMARKS (snd (build_table w l s st)) = REFERENCE_BENCHMARKS st"
proof -
  obtain r st' where b: "build_table w l s st = (r, st')"
    by (cases "build_table w l s st")
  from build_table_frame [OF b] assms show ?thesis
    by (auto simp: b wf_state_def ref_data_def list_all_iff)
qed

lemma on_analyze_state:
  "snd (on_analyze w url st) = st \<or> (\<exists>l s. snd (on_analyze w url st) = snd (build_table w l s st))"
proof (cases "analyze_site w url")
  case (Inl e)
  then show ?thesis by (simp add: on_analyze_def)
next
  case (Inr p)
  obtain sc d where p: "p = (sc, d)"
    by (cases p)
  show ?thesis
  proof (cases sc)
    case None
    with Inr p show ?thesis by (simp add: on_analyze_def)
  next
    case (Some scores)
    show ?thesis
    proof (cases "urlparse w url")
      case (Inl e)
      with Inr p Some show ?thesis by (simp add: on_analyze_def)
    next
      case parsed: (Inr parsed)
      define l where "l = (if netloc parsed \<noteq> [] then netloc parsed else url)"
      obtain r st' where b: "build_table w l scores st = (r, st')"
        by (cases "build_table w l scores st")
      have "snd (on_analyze w url st) = st'"
        using Inr p Some parsed b
        by (cases r) (simp_all add: on_analyze_def Let_def flip: l_def)
      with b show ?thesis
        by (metis snd_conv)
    qed
  qed
qed

lemma run_call_keeps:
  assumes "wf_state st"
  shows "wf_state (run_call c st) \<and> ref_data (run_call c st) = ref_data st
         \<and> REFERENCE_BENCHMARKS (run_call c st) = REFERENCE_BENCHMARKS st"
proof (cases c)
  case (Analyze w url)
  with assms show ?thesis by simp
next
  case (BuildTable w l s)
  with build_table_keeps [OF assms, where w = w and l = l and s = s] show ?thesis by simp
next
  case (Click w url)
  with on_analyze_state [where w = w and url = url and st = st] build_table_keeps [OF assms] assms show ?thesis
    by auto
qed

lemma run_calls_keeps:
  "wf_state st \<Longrightarrow>
     wf_state (run_calls cs st) \<and> ref_data (run_calls cs st) = ref_data st
     \<and> REFERENCE_BENCHMARKS (run_calls cs st) = REFERENCE_BENCHMARKS st"
proof (induction cs arbitrary: st)
  case Nil
  then show ?case by simp
next
  case (Cons c cs)
  from run_call_keeps [OF Cons.prems, of c] Cons.IH [of "run_call c st"]
  show ?case by simp
qed










section \<open>Fetching and scoring\<close>

lemma analyze_site_success:
  assumes "fetch_html w url 6 = Inr (Inr res)" and "BeautifulSoup w (page_text res) = Inr soup"
  shows "\<exists>d. analyze_site w url =
           Inr (Some (site_scores
                   (cohesion_from_colors (int (count_colors
                       (Some (fetch_css_assets w (page_text res) (final_url res) 3 4)))))
                   (find_first soup (\<lambda>t. tag_name t = ''nav'') \<noteq> None)
                   (find_first soup (\<lambda>t. tag_name t = ''link''
                        \<and> rel_matches (\<lambda>v. v = ''icon'') (tag_get t ''rel'')) \<noteq> None)
                   (str_contains '':hover'' (fetch_css_assets w (page_text res) (final_url res) 3 4))
                   (find_first soup (\<lambda>t. tag_get t ''aria-label'' \<noteq> None) \<noteq> None)
                   (elapsed res < 1)),
                Diagnostics d)
         \<and> CSS_Colors_Found d = count_colors (Some (fetch_css_assets w (page_text res) (final_url res) 3 4))
         \<and> Palette_Cohesion_Score d = cohesion_from_colors (int (CSS_Colors_Found d))"
  using assms
  by (simp add: analyze_site_def Let_def site_scores_def split del: if_split cong: if_cong)

lemma find_first_list_ex: "(find_first soup P \<noteq> None) = list_ex P soup"
  by (auto simp: find_first_def find_None_iff list_ex_iff)

lemma analyze_site_failure:
  assumes "fetch_html w url 6 = Inr (Inl err)"
  shows "analyze_site w url = Inr (None, ErrorText err)"
  using assms by (simp add: analyze_site_def)

lemma analyze_site_Some:
  assumes "analyze_site w url = Inr (Some scores, d)"
  shows "\<exists>res soup. fetch_html w url 6 = Inr (Inr res) \<and> BeautifulSoup w (page_text res) = Inr soup"
proof (cases "fetch_html w url 6")
  case (Inl e)
  with assms show ?thesis by (simp add: analyze_site_def)
next
  case (Inr f)
  show ?thesis
  proof (cases f)
    case (Inl err)
    with Inr assms show ?thesis by (simp add: analyze_site_def)
  next
    case res: (Inr res)
    show ?thesis
    proof (cases "BeautifulSoup w (page_text res)")
      case (Inl e)
      with Inr res assms show ?thesis by (simp add: analyze_site_def Let_def)
    next
      case (Inr soup)
      with \<open>fetch_html w url 6 = Inr f\<close> res show ?thesis by simp
    qed
  qed
qed

lemma clamp_score_bounds: "1 \<le> clamp_score x 1 10 \<and> clamp_score x 1 10 \<le> 10"
  by (simp add: clamp_score_def)

lemma site_scores_range:
  "list_all (\<lambda>f. \<exists>v. site_scores c a b h l s f = Some v \<and> 1 \<le> v \<and> v \<le> 10) UX_FACTORS"
  by (simp add: site_scores_def UX_FACTORS_def clamp_score_bounds)

lemma site_scores_dom: "dom (site_scores c a b h l s) = set UX_FACTORS"
  by (auto simp: site_scores_def UX_FACTORS_def)

lemma count_colors_scenario: "count_colors (Some ''a:hover{color:#123456}'') = 1"
  by (simp add: count_colors_def match_rgb_def lit_def is_hex_def)

lemma hover_scenario: "str_contains '':hover'' ''a:hover{color:#123456}''"
  by simp

lemma favicon_matches:
  "tag_name favicon_link = ''link'' \<and> rel_matches (\<lambda>v. v = ''icon'') (tag_get favicon_link ''rel'')"
  by (simp add: favicon_link_def rel_matches_def tag_get_def is_space_def)

lemma py_round_scenario: "py_round 9 = 9" "py_round (17 / 2) = 8" "py_round 6 = 6"
  "py_round 7 = 7" "py_round 10 = 10"
  by (simp_all add: py_round_def)

lemma site_scores_scenario: "site_scores 10 True True True True True = scenario_scores"
  by (simp add: site_scores_def scenario_scores_def clamp_score_def py_round_scenario)

lemma scenario_analysis:
  assumes "fetch_html w url 6 = Inr (Inr res)" and "elapsed res = 3 / 10"
    and "BeautifulSoup w (page_text res) = Inr soup"
    and "fetch_css_assets w (page_text res) (final_url res) 3 4 = ''a:hover{color:#123456}''"
    and "list_ex (\<lambda>t. tag_name t = ''nav'') soup"
    and "favicon_link \<in> set soup"
    and "list_ex (\<lambda>t. tag_get t ''aria-label'' \<noteq> None) soup"
  shows "\<exists>d. analyze_site w url = Inr (Some scenario_scores, Diagnostics d)
           \<and> CSS_Colors_Found d = 1 \<and> Palette_Cohesion_Score d = 10"
proof -
  have icon: "find_first soup (\<lambda>t. tag_name t = ''link''
                \<and> rel_matches (\<lambda>v. v = ''icon'') (tag_get t ''rel'')) \<noteq> None"
    unfolding find_first_list_ex list_ex_iff using assms(6) favicon_matches by blast
  have nav: "find_first soup (\<lambda>t. tag_name t = ''nav'') \<noteq> None"
    unfolding find_first_list_ex by (rule assms(5))
  have aria: "find_first soup (\<lambda>t. tag_get t ''aria-label'' \<noteq> None) \<noteq> None"
    unfolding find_first_list_ex by (rule assms(7))
  have coh: "cohesion_from_colors (int (count_colors (Some ''a:hover{color:#123456}''))) = 10"
    by (simp add: count_colors_scenario cohesion_from_colors_def)
  from analyze_site_success [OF assms(1) assms(3)] show ?thesis
    unfolding assms(4) coh
    using icon nav aria hover_scenario assms(2) count_colors_scenario
    by (auto simp: site_scores_scenario cohesion_from_colors_def)
qed

lemma scenario_fetch:
  "fetch_html scenario_world ''https://example.com'' 6
     = Inr (Inr \<lparr>final_url = ''https://example.com'', status = 200, elapsed = 3 / 10,
                 content_size = 6, page_text = ''<html>''\<rparr>)"
  by (simp add: fetch_html_def scenario_world_def raise_for_status_def)

lemma scenario_css:
  "fetch_css_assets scenario_world ''<html>'' ''https://example.com'' 3 4 = ''a:hover{color:#123456}''"
  by (simp add: fetch_css_assets_def scenario_world_def scenario_soup_def find_all_def
      is_stylesheet_link_def rel_matches_def tag_get_def is_space_def py_slice_to_def
      ok_def raise_for_status_def)

lemma scenario_soup_tags:
  "list_ex (\<lambda>t. tag_name t = ''nav'') scenario_soup"
  "favicon_link \<in> set scenario_soup"
  "list_ex (\<lambda>t. tag_get t ''aria-label'' \<noteq> None) scenario_soup"
  by (simp_all add: scenario_soup_def favicon_link_def tag_get_def)

lemma scenario_parse: "BeautifulSoup scenario_world ''<html>'' = Inr scenario_soup"
  by (simp add: scenario_world_def)

lemma fetch_html_request_raises:
  assumes "urlparse w url = Inr parsed"
    and "requests_get w (if scheme parsed = [] then ''https://'' @ url else url) 6 = Inl e"
  shows "fetch_html w url 6 = Inr (Inl (str e))"
  using assms by (simp add: fetch_html_def Let_def)

lemma fetch_html_status_raises:
  assumes "urlparse w url = Inr parsed"
    and "requests_get w (if scheme parsed = [] then ''https://'' @ url else url) 6 = Inr r"
    and "raise_for_status r = Inl e"
  shows "fetch_html w url 6 = Inr (Inl (str e))"
  using assms by (simp add: fetch_html_def Let_def)

lemma fetch_html_returns:
  assumes "urlparse w url = Inr parsed"
    and "requests_get w (if scheme parsed = [] then ''https://'' @ url else url) 6 = Inr r"
    and "raise_for_status r = Inr u"
  shows "\<exists>res. fetch_html w url 6 = Inr (Inr res) \<and> page_text res = resp_text r
           \<and> final_url res = resp_url r"
  using assms by (simp add: fetch_html_def Let_def)

lemma on_analyze_failure:
  assumes "analyze_site w url = Inr (None, ErrorText msg)"
  shows "on_analyze w url st = (Inr (ErrorBox (''Could not analyze. Error: '' @ msg)), st)"
  using assms by (simp add: on_analyze_def)

lemma fetch_each_append:
  "fetch_each w t (xs @ ys) acc = fetch_each w t ys (fetch_each w t xs acc)"
  by (induction xs arbitrary: acc) (simp_all split: sum.splits)

lemma fetch_each_map:
  "fetch_each w t hs acc = acc @ map (kept_body w t) (filter (survives w t) hs)"
  by (induction hs arbitrary: acc) (simp_all add: survives_def kept_body_def split: sum.splits)

lemma fetch_css_assets_bodies:
  "fetch_css_assets w html base_url limit timeout
     = join [CHR 0x0A] (map (kept_body w timeout)
         (filter (survives w timeout) (requested_stylesheets w html base_url limit)))"
  by (simp add: fetch_css_assets_def requested_stylesheets_def fetch_each_map Let_def
      split: sum.splits)

lemma collect_hrefs_length:
  "collect_hrefs w b links acc = Inr hrefs \<Longrightarrow> length hrefs \<le> length acc + length links"
proof (induction links arbitrary: acc)
  case Nil
  then show ?case by simp
next
  case (Cons l links)
  show ?case
  proof (cases "tag_get l ''href''")
    case None
    with Cons.prems Cons.IH [of acc] show ?thesis by simp
  next
    case (Some href)
    show ?thesis
    proof (cases "href = []")
      case True
      with Some Cons.prems Cons.IH [of acc] show ?thesis by simp
    next
      case False
      show ?thesis
      proof (cases "urljoin w b href")
        case (Inl e)
        with Some False Cons.prems show ?thesis by simp
      next
        case (Inr u)
        with Some False Cons.prems Cons.IH [of "acc @ [u]"] show ?thesis by simp
      qed
    qed
  qed
qed

lemma requested_stylesheets_limit:
  "0 \<le> limit \<Longrightarrow> length (requested_stylesheets w html base_url limit) \<le> nat limit"
  by (simp add: requested_stylesheets_def py_slice_to_def split: sum.splits)

lemma requested_stylesheets_links:
  assumes "BeautifulSoup w html = Inr soup" and "0 \<le> limit"
  shows "length (requested_stylesheets w html base_url limit)
           \<le> length (find_all soup is_stylesheet_link)"
proof (cases "collect_hrefs w base_url (find_all soup is_stylesheet_link) []")
  case (Inl e)
  with assms show ?thesis by (simp add: requested_stylesheets_def)
next
  case (Inr hrefs)
  from collect_hrefs_length [OF this] assms Inr show ?thesis
    by (simp add: requested_stylesheets_def py_slice_to_def)
qed

lemma kept_body_cap: "length (kept_body w timeout h) \<le> 50000"
  by (simp add: kept_body_def split: sum.splits)

lemma scenario_requested:
  "requested_stylesheets scenario_world ''<html>'' ''https://example.com'' 3
     = [''https://example.com/s.css'']"
  by (simp add: requested_stylesheets_def scenario_world_def scenario_soup_def find_all_def
      is_stylesheet_link_def rel_matches_def tag_get_def is_space_def py_slice_to_def)

lemma multibyte_css:
  "fetch_css_assets multibyte_world ''<html>'' ''https://example.com'' 3 4
     = replicate 50000 (CHR 0xE9)"
  by (simp add: fetch_css_assets_def multibyte_world_def scenario_world_def scenario_soup_def
      find_all_def is_stylesheet_link_def rel_matches_def tag_get_def is_space_def py_slice_to_def
      ok_def raise_for_status_def)

lemma utf8_replicate_high:
  "128 \<le> (of_char c :: nat) \<Longrightarrow> length (utf8 (replicate n c)) = 2 * n"
  by (simp add: utf8_def length_concat sum_list_replicate)

lemma analyze_site_None:
  assumes "analyze_site w url = Inr (None, info)"
  shows "\<exists>err. fetch_html w url 6 = Inr (Inl err) \<and> info = ErrorText err"
proof (cases "fetch_html w url 6")
  case (Inl e)
  with assms show ?thesis by (simp add: analyze_site_def)
next
  case (Inr f)
  show ?thesis
  proof (cases f)
    case (Inl err)
    with Inr assms show ?thesis by (simp add: analyze_site_def)
  next
    case res: (Inr res)
    show ?thesis
    proof (cases "BeautifulSoup w (page_text res)")
      case (Inl e)
      with Inr res assms show ?thesis by (simp add: analyze_site_def Let_def)
    next
      case soup: (Inr soup)
      from analyze_site_success [OF _ soup, of url] Inr res assms show ?thesis
        by auto
    qed
  qed
qed

lemma fetch_html_error_cause:
  assumes "urlparse w url = Inr parsed" and "fetch_html w url 6 = Inr (Inl err)"
  shows "\<exists>e. err = str e
           \<and> (requests_get w (if scheme parsed = [] then ''https://'' @ url else url) 6 = Inl e
               \<or> (\<exists>r. requests_get w (if scheme parsed = [] then ''https://'' @ url else url) 6 = Inr r
                      \<and> raise_for_status r = Inl e))"
  using assms by (auto simp: fetch_html_def Let_def split: sum.splits if_splits)

lemma urlparse_raises_escapes:
  assumes "urlparse w url = Inl e"
  shows "fetch_html w url timeout = Inl e \<and> analyze_site w url = Inl e
         \<and> on_analyze w url st = (Inl e, st)"
proof -
  have f: "fetch_html w url t = Inl e" for t
    using assms by (simp add: fetch_html_def)
  then have a: "analyze_site w url = Inl e"
    by (simp add: analyze_site_def)
  then have "on_analyze w url st = (Inl e, st)"
    by (simp add: on_analyze_def)
  with f a show ?thesis
    by simp
qed

text \<open>
  What the code does once \<open>urlparse\<close> has accepted the URL: a request that raises, or a
  status that makes \<open>raise_for_status\<close> raise, is reported as \<open>(None, message)\<close>, and
  the page shows the error without building the table; \<open>(None, message)\<close> is returned
  only then; with the page fetched and parsed, scores are returned whatever the stylesheet
  requests do.
\<close>

lemma page_fetch_failure_reported:
  assumes "urlparse w url = Inr parsed"
    and "target = (if scheme parsed = [] then ''https://'' @ url else url)"
  shows "(requests_get w target 6 = Inl e \<or> (requests_get w target 6 = Inr r \<and> raise_for_status r = Inl e)
            \<longrightarrow> analyze_site w url = Inr (None, ErrorText (str e))
                \<and> on_analyze w url st = (Inr (ErrorBox (''Could not analyze. Error: '' @ str e)), st))
         \<and> (analyze_site w url = Inr (None, info)
              \<longrightarrow> (\<exists>e. info = ErrorText (str e)
                    \<and> (requests_get w target 6 = Inl e
                        \<or> (\<exists>r. requests_get w target 6 = Inr r \<and> raise_for_status r = Inl e))))
         \<and> (requests_get w target 6 = Inr r \<and> raise_for_status r = Inr ()
              \<and> BeautifulSoup w (resp_text r) = Inr soup
              \<longrightarrow> (\<exists>scores d. analyze_site w url = Inr (Some scores, Diagnostics d)))
         \<and> (requests_get w h timeout = Inl e'
              \<longrightarrow> fetch_each w timeout (hs @ h # hs') css_texts
                    = fetch_each w timeout (hs @ hs') css_texts)
         \<and> fetch_each w timeout hs css_texts
             = css_texts @ map (kept_body w timeout) (filter (survives w timeout) hs)"
proof -
  have 1: "analyze_site w url = Inr (None, ErrorText (str e))
           \<and> on_analyze w url st = (Inr (ErrorBox (''Could not analyze. Error: '' @ str e)), st)"
    if "requests_get w target 6 = Inl e \<or> (requests_get w target 6 = Inr r \<and> raise_for_status r = Inl e)"
  proof -
    from that have "fetch_html w url 6 = Inr (Inl (str e))"
      using fetch_html_request_raises [OF assms(1), of e]
        fetch_html_status_raises [OF assms(1), of r e]
      unfolding assms(2) by blast
    from analyze_site_failure [OF this] on_analyze_failure [OF analyze_site_failure [OF this]]
    show ?thesis by simp
  qed
  have 2: "\<exists>e. info = ErrorText (str e)
              \<and> (requests_get w target 6 = Inl e
                  \<or> (\<exists>r. requests_get w target 6 = Inr r \<and> raise_for_status r = Inl e))"
    if "analyze_site w url = Inr (None, info)"
  proof -
    from analyze_site_None [OF that] obtain err where
      f: "fetch_html w url 6 = Inr (Inl err)" and i: "info = ErrorText err"
      by blast
    from fetch_html_error_cause [OF assms(1) f] i show ?thesis
      unfolding assms(2) by blast
  qed
  have 3: "\<exists>scores d. analyze_site w url = Inr (Some scores, Diagnostics d)"
    if "requests_get w target 6 = Inr r \<and> raise_for_status r = Inr ()
        \<and> BeautifulSoup w (resp_text r) = Inr soup"
  proof -
    from that fetch_html_returns [OF assms(1), of r "()"] obtain res where
      "fetch_html w url 6 = Inr (Inr res)" "page_text res = resp_text r"
      unfolding assms(2) by blast
    with that analyze_site_success [of w url res soup] show ?thesis
      by auto
  qed
  have 4: "fetch_each w timeout (hs @ h # hs') css_texts = fetch_each w timeout (hs @ hs') css_texts"
    if "requests_get w h timeout = Inl e'"
    using that by (simp add: fetch_each_append)
  from 1 2 3 4 fetch_each_map [of w timeout hs css_texts] show ?thesis
    by blast
qed

section \<open>Colour tokens across a separator\<close>

lemma takeWhile_sep: "\<not> P s \<Longrightarrow> takeWhile P (xs @ s # ys) = takeWhile P xs"
  by (induction xs) auto

lemma dropWhile_sep: "\<not> P s \<Longrightarrow> dropWhile P (xs @ s # ys) = dropWhile P xs @ s # ys"
  by (induction xs) auto

lemma takeWhile_take_sep:
  "\<not> P s \<Longrightarrow> takeWhile P (take n (xs @ s # ys)) = takeWhile P (take n xs)"
proof (induction xs arbitrary: n)
  case Nil
  then show ?case by (cases n) simp_all
next
  case (Cons x xs)
  then show ?case by (cases n) simp_all
qed

lemma length_takeWhile_take: "length (takeWhile P (take n xs)) \<le> length xs"
  by (metis length_takeWhile_le length_take min.cobounded1 order_trans)

lemma findall_hex_sep:
  "findall_hex (a @ CHR '';'' # b) = findall_hex a @ findall_hex b"
proof (induction a rule: findall_hex.induct)
  case 1
  show ?case by simp
next
  case (2 c cs)
  have nh: "\<not> is_hex CHR '';''"
    by (simp add: is_hex_def)
  let ?ds = "takeWhile is_hex (take 8 cs)"
  have tw: "takeWhile is_hex (take 8 (cs @ CHR '';'' # b)) = ?ds"
    using nh by (rule takeWhile_take_sep)
  have dr: "drop (length ?ds) (cs @ CHR '';'' # b) = drop (length ?ds) cs @ CHR '';'' # b"
    using length_takeWhile_take [of is_hex 8 cs] by simp
  have step: "findall_hex (c # xs)
                = (if c = CHR ''#'' \<and> 3 \<le> length (takeWhile is_hex (take 8 xs))
                   then (c # takeWhile is_hex (take 8 xs))
                          # findall_hex (drop (length (takeWhile is_hex (take 8 xs))) xs)
                   else findall_hex xs)" for xs
    by (rule findall_hex.simps(2))
  show ?case
  proof (cases "c = CHR ''#'' \<and> 3 \<le> length ?ds")
    case True
    with 2(1) have ih: "findall_hex (drop (length ?ds) cs @ CHR '';'' # b)
                      = findall_hex (drop (length ?ds) cs) @ findall_hex b"
      by simp
    have "findall_hex ((c # cs) @ CHR '';'' # b)
            = (c # ?ds) # findall_hex (drop (length ?ds) (cs @ CHR '';'' # b))"
      unfolding append_Cons step [of "cs @ CHR '';'' # b"] tw using True by simp
    also have "\<dots> = (c # ?ds) # findall_hex (drop (length ?ds) cs) @ findall_hex b"
      unfolding dr ih by simp
    also have "\<dots> = findall_hex (c # cs) @ findall_hex b"
      unfolding step [of cs] using True by simp
    finally show ?thesis .
  next
    case False
    with 2(2) have ih: "findall_hex (cs @ CHR '';'' # b) = findall_hex cs @ findall_hex b"
      by simp
    have "findall_hex ((c # cs) @ CHR '';'' # b) = findall_hex (cs @ CHR '';'' # b)"
      unfolding append_Cons step [of "cs @ CHR '';'' # b"] tw using False by auto
    also note ih
    also have "findall_hex cs @ findall_hex b = findall_hex (c # cs) @ findall_hex b"
      unfolding step [of cs] using False by auto
    finally show ?thesis .
  qed
qed

lemma lit_sep:
  assumes "s \<notin> set p"
  shows "lit p (xs @ s # ys) = map_option (\<lambda>r. r @ s # ys) (lit p xs)"
proof (cases "prefix p xs")
  case True
  then have "prefix p (xs @ s # ys)" "length p \<le> length xs"
    by (auto simp: prefix_def)
  with True show ?thesis
    by (simp add: lit_def)
next
  case False
  have "\<not> prefix p (xs @ s # ys)"
  proof
    assume "prefix p (xs @ s # ys)"
    with False obtain us where us: "p = xs @ us" "prefix us (s # ys)"
      by (auto simp: prefix_append)
    with False have "us \<noteq> []"
      by auto
    with us(2) have "s \<in> set us"
      by (cases us) auto
    with us(1) assms show False
      by simp
  qed
  with False show ?thesis
    by (simp add: lit_def)
qed

lemma spaces_sep:
  "\<not> is_space s \<Longrightarrow> spaces (xs @ s # ys) = map_option (\<lambda>r. r @ s # ys) (spaces xs)"
  by (simp add: spaces_def dropWhile_sep)

lemma digits1_sep:
  "\<not> is_digit s \<Longrightarrow> digits1 (xs @ s # ys) = map_option (\<lambda>r. r @ s # ys) (digits1 xs)"
  by (simp add: digits1_def dropWhile_sep takeWhile_sep)

lemma semicolon_plain:
  "\<not> is_space CHR '';''" "\<not> is_digit CHR '';''" "CHR '';'' \<notin> set ''rgb(''"
  "CHR '';'' \<notin> set '',''" "CHR '';'' \<notin> set '')''"
  by (simp_all add: is_space_def is_digit_def)

lemma bind_sep:
  assumes "\<And>x. f (x @ t) = map_option (\<lambda>r. r @ t) (f x)"
    and "\<And>x. g (x @ t) = map_option (\<lambda>r. r @ t) (g x)"
  shows "Option.bind (f (x @ t)) g = map_option (\<lambda>r. r @ t) (Option.bind (f x) g)"
  by (cases "f x") (simp_all add: assms)

lemma match_rgb_sep:
  "match_rgb (xs @ CHR '';'' # ys) = map_option (\<lambda>r. r @ CHR '';'' # ys) (match_rgb xs)"
proof -
  let ?t = "CHR '';'' # ys"
  have l1: "lit ''rgb('' (x @ ?t) = map_option (\<lambda>r. r @ ?t) (lit ''rgb('' x)" for x
    by (rule lit_sep) (rule semicolon_plain)
  have l2: "lit '','' (x @ ?t) = map_option (\<lambda>r. r @ ?t) (lit '','' x)" for x
    by (rule lit_sep) (rule semicolon_plain)
  have l3: "lit '')'' (x @ ?t) = map_option (\<lambda>r. r @ ?t) (lit '')'' x)" for x
    by (rule lit_sep) (rule semicolon_plain)
  have sp: "spaces (x @ ?t) = map_option (\<lambda>r. r @ ?t) (spaces x)" for x
    by (rule spaces_sep) (rule semicolon_plain)
  have dg: "digits1 (x @ ?t) = map_option (\<lambda>r. r @ ?t) (digits1 x)" for x
    by (rule digits1_sep) (rule semicolon_plain)
  show ?thesis
    unfolding match_rgb_def
    by (intro bind_sep l1 l2 l3 sp dg)
qed

lemma match_rgb_shorter: "match_rgb s = Some rest \<Longrightarrow> length rest < length s"
proof -
  assume m: "match_rgb s = Some rest"
  have l: "length r \<le> length x" if "lit p x = Some r" for p x r
    using that by (auto simp: lit_def split: if_splits)
  have l0: "length r < length x" if "lit ''rgb('' x = Some r" for x r
    using that by (auto simp: lit_def prefix_def split: if_splits)
  have sp: "length r \<le> length x" if "spaces x = Some r" for x r
    using that by (auto simp: spaces_def length_dropWhile_le)
  have d: "length r \<le> length x" if "digits1 x = Some r" for x r
    using that by (auto simp: digits1_def length_dropWhile_le split: if_splits)
  from m obtain r1 r2 r3 r4 r5 r6 r7 r8 r9 r10 where
    "lit ''rgb('' s = Some r1" "spaces r1 = Some r2" "digits1 r2 = Some r3"
    "lit '','' r3 = Some r4" "spaces r4 = Some r5" "digits1 r5 = Some r6"
    "lit '','' r6 = Some r7" "spaces r7 = Some r8" "digits1 r8 = Some r9"
    "spaces r9 = Some r10" "lit '')'' r10 = Some rest"
    unfolding match_rgb_def by (auto simp: bind_eq_Some_conv)
  then show ?thesis
    using l0 [of s r1] sp [of r1 r2] d [of r2 r3] l [of "'',''" r3 r4] sp [of r4 r5]
      d [of r5 r6] l [of "'',''" r6 r7] sp [of r7 r8] d [of r8 r9] sp [of r9 r10]
      l [of "'')''" r10 rest]
    by linarith
qed

lemma findall_rgb_sep:
  "findall_rgb (a @ CHR '';'' # b) = findall_rgb a @ findall_rgb b"
proof (induction a rule: findall_rgb.induct)
  case 1
  have "match_rgb (CHR '';'' # b) = None"
    by (simp add: match_rgb_def lit_def)
  then show ?case by simp
next
  case (2 c cs)
  note m = match_rgb_sep [of "c # cs" b]
  show ?case
  proof (cases "match_rgb (c # cs)")
    case None
    with 2(1) [OF None] m show ?thesis by simp
  next
    case (Some rest)
    from match_rgb_shorter [OF Some] have "length rest \<le> length cs"
      by simp
    with 2(2) [OF Some] Some m show ?thesis
      by (simp add: Suc_diff_le)
  qed
qed

lemma count_colors_card: "count_colors (Some css) = card (set (color_tokens css))"
  by (simp add: count_colors_def color_tokens_def length_remdups_card_conv)

lemma color_tokens_sep:
  "set (color_tokens (a @ CHR '';'' # b)) = set (color_tokens a) \<union> set (color_tokens b)"
  by (auto simp: color_tokens_def findall_hex_sep findall_rgb_sep)

lemma count_colors_sep:
  "count_colors (Some (a @ '';'' @ b)) = card (set (color_tokens a) \<union> set (color_tokens b))"
  by (simp add: count_colors_card color_tokens_sep)

lemma tokens_example:
  "color_tokens ''#fff, #fff, rgb(1,2,3)'' = [''#fff'', ''#fff'', ''rgb(1,2,3)'']"
  "color_tokens ''rgb(1,2,3) #fff'' = [''#fff'', ''rgb(1,2,3)'']"
  by (simp_all add: color_tokens_def match_rgb_def lit_def spaces_def digits1_def is_hex_def
        is_digit_def is_space_def)

section \<open>The claims about the benchmark table\<close>

text \<open>
  Claim C2, amended. In a state whose reference data is the compiled-in one, for every
  label and every scores mapping \<open>build_table\<close> returns a table of exactly 6 rows: without
  the two added columns they are the 5 reference rows and the target row. The rows are
  sorted by descending Total, and the Rank of a row is one more than the number of rows
  with a strictly larger Total, so that tied totals share the minimum rank and the ranks
  after a tie skip.
\<close>

theorem build_table_six_rows_ranked:
  assumes "wf_state st" and "ref_data st = REFERENCE_DATA"
  shows "\<exists>t st'. build_table w label scores st = (Inr t, st')
           \<and> length t = 6
           \<and> mset (map (\<lambda>r. r |` (- added_columns)) t)
               = mset (REFERENCE_DATA @ [target_row label scores])
           \<and> sorted_wrt (\<lambda>a b. cell_int b ''Total / 70'' \<le> cell_int a ''Total / 70'') t
           \<and> list_all (\<lambda>r. cell_int r ''Rank''
                = 1 + int (length (filter (\<lambda>r'. cell_int r ''Total / 70'' < cell_int r' ''Total / 70'') t))) t"
proof -
  define rows where "rows = REFERENCE_DATA @ [target_row label scores]"
  define t where "t = sort_values_desc ''Total / 70'' (df_rank (df_total w rows))"
  from build_table_reference [OF assms, where w = w and l = label and s = scores]
  obtain st' where b: "build_table w label scores st = (Inr t, st')"
    by (auto simp: t_def rows_def)
  have p: "mset t = mset (df_rank (df_total w rows))"
    by (simp add: t_def mset_sort_values_desc)
  have "length t = length (df_rank (df_total w rows))"
    using p by (rule mset_eq_length)
  then have len: "length t = 6"
    by (simp add: df_rank_def df_total_def rows_def REFERENCE_DATA_def)
  have "list_all (\<lambda>r. r ''Total / 70'' = None \<and> r ''Rank'' = None) rows"
    using plain_REFERENCE_DATA plain_target_row by (simp add: rows_def)
  from strip_added [OF this]
  have "mset (map (\<lambda>r. r |` (- added_columns)) t) = mset rows"
    using p by (metis mset_map)
  moreover have "sorted_wrt (\<lambda>a b. cell_int b ''Total / 70'' \<le> cell_int a ''Total / 70'') t"
    unfolding t_def by (rule sorted_sort_values_desc)
  moreover note sorted_table_ranks [OF t_def] len b
  ultimately show ?thesis
    unfolding rows_def by blast
qed

theorem build_table_six_rows_ranked_witness:
  "wf_state initial_state \<and> ref_data initial_state = REFERENCE_DATA
   \<and> (\<exists>t st'. build_table scenario_world ''example.com'' scenario_scores initial_state = (Inr t, st')
         \<and> length t = 6
         \<and> mset (map (\<lambda>r. r |` (- added_columns)) t)
             = mset (REFERENCE_DATA @ [target_row ''example.com'' scenario_scores])
         \<and> sorted_wrt (\<lambda>a b. cell_int b ''Total / 70'' \<le> cell_int a ''Total / 70'') t
         \<and> list_all (\<lambda>r. cell_int r ''Rank''
              = 1 + int (length (filter (\<lambda>r'. cell_int r ''Total / 70'' < cell_int r' ''Total / 70'') t))) t)"
  using build_table_six_rows_ranked [OF wf_initial_state ref_data_initial_state,
      where w = scenario_world and label = "''example.com''" and scores = scenario_scores]
    wf_initial_state ref_data_initial_state
  by simp

text \<open>
  Claim C2 as stated fails: the ranking is not dense. For the site of the scenario the
  sorted totals are 61, 60, 60, 60, 58, 55 and the Rank column is 1, 2, 2, 2, 5, 6, whereas
  the dense ranking of these totals is 1, 2, 2, 2, 3, 4.
\<close>

theorem build_table_rank_not_dense:
  "(case fst (build_table scenario_world ''example.com'' scenario_scores initial_state) of
      Inl e \<Rightarrow> False
    | Inr t \<Rightarrow>
        map (\<lambda>r. cell_int r ''Total / 70'') t = [61, 60, 60, 60, 58, 55]
        \<and> map (\<lambda>r. cell_int r ''Rank'') t = [1, 2, 2, 2, 5, 6]
        \<and> map (dense_rank_desc (map (\<lambda>r. cell_int r ''Total / 70'') t))
              (map (\<lambda>r. cell_int r ''Total / 70'') t) = [1, 2, 2, 2, 3, 4]
        \<and> map (\<lambda>r. cell_int r ''Rank'') t
            \<noteq> map (dense_rank_desc (map (\<lambda>r. cell_int r ''Total / 70'') t))
                (map (\<lambda>r. cell_int r ''Total / 70'') t))"
proof -
  define t where "t = sort_values_desc ''Total / 70''
    (df_rank (df_total scenario_world (REFERENCE_DATA @ [target_row ''example.com'' scenario_scores])))"
  from build_table_reference [OF wf_initial_state ref_data_initial_state,
      where w = scenario_world and l = "''example.com''" and s = scenario_scores]
  have b: "fst (build_table scenario_world ''example.com'' scenario_scores initial_state) = Inr t"
    by (auto simp: t_def)
  have p: "map (\<lambda>r. (cell_int r ''Total / 70'', cell_int r ''Rank'')) t
             = [(61, 1), (60, 2), (60, 2), (60, 2), (58, 5), (55, 6)]"
    unfolding t_def by (rule scenario_table)
  have "map (\<lambda>r. cell_int r ''Total / 70'') t
          = map fst (map (\<lambda>r. (cell_int r ''Total / 70'', cell_int r ''Rank'')) t)"
    by (simp add: comp_def)
  then have tot: "map (\<lambda>r. cell_int r ''Total / 70'') t = [61, 60, 60, 60, 58, 55]"
    by (simp add: p)
  have "map (\<lambda>r. cell_int r ''Rank'') t
          = map snd (map (\<lambda>r. (cell_int r ''Total / 70'', cell_int r ''Rank'')) t)"
    by (simp add: comp_def)
  then have rk: "map (\<lambda>r. cell_int r ''Rank'') t = [1, 2, 2, 2, 5, 6]"
    by (simp add: p)
  have "map (dense_rank_desc [61, 60, 60, 60, 58, 55]) [61, 60, 60, 60, 58, 55] = [1, 2, 2, 2, 3, 4]"
    by (simp add: dense_rank_desc_def)
  with tot rk show ?thesis
    by (simp add: b)
qed

text \<open>
  Claim C9. After any sequence of \<open>analyze_site\<close> calls, \<open>build_table\<close> calls and
  button presses, for any targets and any behaviour of the network, the global list
  \<open>REFERENCE_BENCHMARKS\<close> names the same dicts and these dicts have the same contents.
\<close>

theorem reference_benchmarks_never_mutated:
  "wf_state st \<Longrightarrow>
     ref_data (run_calls calls st) = ref_data st
     \<and> REFERENCE_BENCHMARKS (run_calls calls st) = REFERENCE_BENCHMARKS st"
  using run_calls_keeps [of st calls] by simp

theorem reference_benchmarks_never_mutated_witness:
  "wf_state initial_state
   \<and> ref_data (run_calls [Click scenario_world ''https://example.com'',
                           BuildTable scenario_world ''example.org'' Map.empty,
                           Analyze scenario_world ''https://example.com'',
                           BuildTable scenario_world ''example.com'' scenario_scores] initial_state)
       = REFERENCE_DATA"
  using reference_benchmarks_never_mutated [OF wf_initial_state,
      of "[Click scenario_world ''https://example.com'',
           BuildTable scenario_world ''example.org'' Map.empty,
           Analyze scenario_world ''https://example.com'',
           BuildTable scenario_world ''example.com'' scenario_scores]"]
    wf_initial_state ref_data_initial_state
  by simp




section \<open>The claims about fetching and scoring\<close>

text \<open>
  Claim C1, amended. For a page fetched in 0.3 seconds whose stylesheet text is
  \<open>a:hover{color:#123456}\<close> and whose markup contains a \<open>nav\<close> element, the link
  \<open>rel="icon" href="/f.ico"\<close> and an element with an \<open>aria-label\<close>,
  \<open>analyze_site\<close> finds 1 colour, cohesion 10, and returns Simplicity 9, Navigation
  Ease 6, Personality 8, Delight/Micro-Interactions 6, Accessibility 7, Speed and
  Responsiveness 10, Emotional Resonance 9. Personality is \<open>round(17 / 2)\<close>, and
  \<open>round\<close> takes the tie 8.5 to the even 8.
\<close>

theorem analyze_site_scenario:
  assumes "fetch_html w url 6 = Inr (Inr res)" and "elapsed res = 3 / 10"
    and "BeautifulSoup w (page_text res) = Inr soup"
    and "fetch_css_assets w (page_text res) (final_url res) 3 4 = ''a:hover{color:#123456}''"
    and "list_ex (\<lambda>t. tag_name t = ''nav'') soup"
    and "favicon_link \<in> set soup"
    and "list_ex (\<lambda>t. tag_get t ''aria-label'' \<noteq> None) soup"
  shows "\<exists>d. analyze_site w url
             = Inr (Some [''Simplicity'' \<mapsto> 9, ''Navigation Ease'' \<mapsto> 6, ''Personality'' \<mapsto> 8,
                          ''Delight/Micro-Interactions'' \<mapsto> 6, ''Accessibility'' \<mapsto> 7,
                          ''Speed & Responsiveness'' \<mapsto> 10, ''Emotional Resonance'' \<mapsto> 9],
                    Diagnostics d)
           \<and> CSS_Colors_Found d = 1 \<and> Palette_Cohesion_Score d = 10"
  using scenario_analysis [OF assms] by (simp add: scenario_scores_def)

theorem analyze_site_scenario_witness:
  "fetch_html scenario_world ''https://example.com'' 6
     = Inr (Inr \<lparr>final_url = ''https://example.com'', status = 200, elapsed = 3 / 10,
                 content_size = 6, page_text = ''<html>''\<rparr>)
   \<and> BeautifulSoup scenario_world ''<html>'' = Inr scenario_soup
   \<and> fetch_css_assets scenario_world ''<html>'' ''https://example.com'' 3 4 = ''a:hover{color:#123456}''
   \<and> list_ex (\<lambda>t. tag_name t = ''nav'') scenario_soup
   \<and> favicon_link \<in> set scenario_soup
   \<and> list_ex (\<lambda>t. tag_get t ''aria-label'' \<noteq> None) scenario_soup
   \<and> (\<exists>d. analyze_site scenario_world ''https://example.com''
             = Inr (Some [''Simplicity'' \<mapsto> 9, ''Navigation Ease'' \<mapsto> 6, ''Personality'' \<mapsto> 8,
                          ''Delight/Micro-Interactions'' \<mapsto> 6, ''Accessibility'' \<mapsto> 7,
                          ''Speed & Responsiveness'' \<mapsto> 10, ''Emotional Resonance'' \<mapsto> 9],
                    Diagnostics d)
           \<and> CSS_Colors_Found d = 1 \<and> Palette_Cohesion_Score d = 10)"
proof -
  note f = scenario_fetch
  have e: "elapsed \<lparr>final_url = ''https://example.com'', status = 200, elapsed = 3 / 10,
                 content_size = 6, page_text = ''<html>''\<rparr> = 3 / 10"
    by simp
  have p: "BeautifulSoup scenario_world (page_text \<lparr>final_url = ''https://example.com'', status = 200,
              elapsed = 3 / 10, content_size = 6, page_text = ''<html>''\<rparr>) = Inr scenario_soup"
    by (simp add: scenario_parse)
  have c: "fetch_css_assets scenario_world
             (page_text \<lparr>final_url = ''https://example.com'', status = 200,
              elapsed = 3 / 10, content_size = 6, page_text = ''<html>''\<rparr>)
             (final_url \<lparr>final_url = ''https://example.com'', status = 200,
              elapsed = 3 / 10, content_size = 6, page_text = ''<html>''\<rparr>) 3 4
           = ''a:hover{color:#123456}''"
    by (simp add: scenario_css)
  from analyze_site_scenario [OF f e p c scenario_soup_tags]
  show ?thesis
    using scenario_fetch scenario_parse scenario_css scenario_soup_tags by blast
qed

text \<open>
  Claim C1 as stated fails on the site of the scenario: Personality is 8, not 9.
\<close>

theorem analyze_site_scenario_personality:
  "fetch_css_assets scenario_world ''<html>'' ''https://example.com'' 3 4 = ''a:hover{color:#123456}''
   \<and> (case analyze_site scenario_world ''https://example.com'' of
        Inr (Some scores, d) \<Rightarrow> scores ''Personality'' = Some 8 \<and> scores \<noteq> claimed_scores
      | _ \<Rightarrow> False)"
proof -
  have e: "elapsed \<lparr>final_url = ''https://example.com'', status = 200, elapsed = 3 / 10,
                 content_size = 6, page_text = ''<html>''\<rparr> = 3 / 10"
    by simp
  have p: "BeautifulSoup scenario_world (page_text \<lparr>final_url = ''https://example.com'', status = 200,
              elapsed = 3 / 10, content_size = 6, page_text = ''<html>''\<rparr>) = Inr scenario_soup"
    by (simp add: scenario_parse)
  have c: "fetch_css_assets scenario_world
             (page_text \<lparr>final_url = ''https://example.com'', status = 200,
              elapsed = 3 / 10, content_size = 6, page_text = ''<html>''\<rparr>)
             (final_url \<lparr>final_url = ''https://example.com'', status = 200,
              elapsed = 3 / 10, content_size = 6, page_text = ''<html>''\<rparr>) 3 4
           = ''a:hover{color:#123456}''"
    by (simp add: scenario_css)
  from scenario_analysis [OF scenario_fetch e p c scenario_soup_tags]
  obtain d where a: "analyze_site scenario_world ''https://example.com''
      = Inr (Some scenario_scores, Diagnostics d)"
    by blast
  have v: "scenario_scores ''Personality'' = Some 8"
    by (simp add: scenario_scores_def)
  have "claimed_scores ''Personality'' = Some 9"
    by (simp add: claimed_scores_def)
  with v have "scenario_scores \<noteq> claimed_scores"
    by (metis option.inject numeral_eq_iff semiring_norm(88) numeral_eq_iff one_neq_zero
        zero_neq_numeral num.distinct)
  with a v scenario_css show ?thesis
    by simp
qed

text \<open>
  Claim C6, amended. With a non-negative limit, \<open>fetch_css_assets\<close> requests at most
  \<open>limit\<close> URLs (callers using the default pass 3), all of them hrefs of stylesheet
  links; the result is the kept bodies of the surviving requests joined by newlines; and
  what is kept of a body is the first 50000 characters of the decoded text.
\<close>

theorem fetch_css_assets_limit_and_cap:
  assumes "0 \<le> limit"
  shows "length (requested_stylesheets w html base_url limit) \<le> nat limit
         \<and> (BeautifulSoup w html = Inr soup \<longrightarrow>
              length (requested_stylesheets w html base_url limit)
                \<le> length (find_all soup is_stylesheet_link))
         \<and> fetch_css_assets w html base_url limit timeout
             = join [CHR 0x0A] (map (kept_body w timeout)
                 (filter (survives w timeout) (requested_stylesheets w html base_url limit)))
         \<and> list_all (\<lambda>h. length (kept_body w timeout h) \<le> 50000)
               (requested_stylesheets w html base_url limit)
         \<and> (requests_get w h timeout = Inr r \<longrightarrow> kept_body w timeout h = take 50000 (resp_text r))"
proof -
  have "requests_get w h timeout = Inr r \<longrightarrow> kept_body w timeout h = take 50000 (resp_text r)"
    by (simp add: kept_body_def)
  moreover have "list_all (\<lambda>h. length (kept_body w timeout h) \<le> 50000)
                   (requested_stylesheets w html base_url limit)"
    by (simp add: kept_body_cap list_all_iff)
  ultimately show ?thesis
    using requested_stylesheets_limit [OF assms, of w html base_url]
      requested_stylesheets_links [OF _ assms, of w html soup base_url]
      fetch_css_assets_bodies [of w html base_url limit timeout]
    by blast
qed

theorem fetch_css_assets_limit_and_cap_witness:
  "(0::int) \<le> 3
   \<and> requested_stylesheets scenario_world ''<html>'' ''https://example.com'' 3
       = [''https://example.com/s.css'']
   \<and> length (requested_stylesheets scenario_world ''<html>'' ''https://example.com'' 3) \<le> nat 3
   \<and> fetch_css_assets scenario_world ''<html>'' ''https://example.com'' 3 4
       = join [CHR 0x0A] (map (kept_body scenario_world 4)
           (filter (survives scenario_world 4)
              (requested_stylesheets scenario_world ''<html>'' ''https://example.com'' 3)))
   \<and> fetch_css_assets scenario_world ''<html>'' ''https://example.com'' 3 4 = ''a:hover{color:#123456}''"
proof -
  have h: "(0::int) \<le> 3" by simp
  from fetch_css_assets_limit_and_cap [OF h, of scenario_world "''<html>''" "''https://example.com''"
      scenario_soup 4]
  show ?thesis
    using scenario_requested scenario_css by simp
qed

text \<open>
  Claim C6 as stated fails: the cap is not a number of bytes. A stylesheet of 50000
  two-byte characters is kept whole, and is 100000 bytes long.
\<close>

theorem fetch_css_assets_cap_is_not_bytes:
  "length (fetch_css_assets multibyte_world ''<html>'' ''https://example.com'' 3 4) = 50000
   \<and> length (utf8 (fetch_css_assets multibyte_world ''<html>'' ''https://example.com'' 3 4)) = 100000
   \<and> \<not> length (utf8 (fetch_css_assets multibyte_world ''<html>'' ''https://example.com'' 3 4)) \<le> 50000"
proof -
  have "128 \<le> (of_char (CHR 0xE9) :: nat)"
    by simp
  from utf8_replicate_high [OF this, of 50000] show ?thesis
    by (simp add: multibyte_css)
qed

text \<open>
  Claim C7 does not hold of the code. \<open>fetch_html\<close> calls \<open>urlparse\<close> before its
  \<open>try\<close>. For the URL \<open>http://[::1\<close> that call raises \<open>ValueError\<close>, and the
  exception leaves \<open>fetch_html\<close>, \<open>analyze_site\<close> and the button handler:
  \<open>analyze_site\<close> returns no \<open>(None, message)\<close> and the page shows no error box,
  although no page fetch has failed.
\<close>

theorem analyze_site_bad_url_escapes:
  "urlparse bad_url_world ''http://[::1'' = Inl (Raised ''Invalid IPv6 URL'')
   \<and> fetch_html bad_url_world ''http://[::1'' 6 = Inl (Raised ''Invalid IPv6 URL'')
   \<and> analyze_site bad_url_world ''http://[::1'' = Inl (Raised ''Invalid IPv6 URL'')
   \<and> on_analyze bad_url_world ''http://[::1'' initial_state
       = (Inl (Raised ''Invalid IPv6 URL''), initial_state)"
proof -
  have u: "urlparse bad_url_world ''http://[::1'' = Inl (Raised ''Invalid IPv6 URL'')"
    by (simp add: bad_url_world_def)
  from urlparse_raises_escapes [OF u] u show ?thesis
    by simp
qed

text \<open>
  Claim C8. Whenever \<open>analyze_site\<close> returns scores, their keys are exactly the 7
  factor names of \<open>UX_FACTORS\<close> and every value is an integer from 1 to 10.
\<close>

theorem analyze_site_scores_shape:
  assumes "analyze_site w url = Inr (Some scores, d)"
  shows "dom scores = set UX_FACTORS \<and> distinct UX_FACTORS \<and> length UX_FACTORS = 7
         \<and> list_all (\<lambda>f. \<exists>v. scores f = Some v \<and> 1 \<le> v \<and> v \<le> 10) UX_FACTORS"
proof -
  from analyze_site_Some [OF assms] obtain res soup where
    "fetch_html w url 6 = Inr (Inr res)" "BeautifulSoup w (page_text res) = Inr soup"
    by blast
  from analyze_site_success [OF this] assms obtain c a b h l s where "scores = site_scores c a b h l s"
    by auto
  then show ?thesis
    using site_scores_range [of c a b h l s] site_scores_dom [of c a b h l s]
    by (simp add: UX_FACTORS_def)
qed

theorem analyze_site_scores_shape_witness:
  "\<exists>d. analyze_site scenario_world ''https://example.com'' = Inr (Some scenario_scores, d)
        \<and> dom scenario_scores = set UX_FACTORS
        \<and> list_all (\<lambda>f. \<exists>v. scenario_scores f = Some v \<and> 1 \<le> v \<and> v \<le> 10) UX_FACTORS"
proof -
  have e: "elapsed \<lparr>final_url = ''https://example.com'', status = 200, elapsed = 3 / 10,
                 content_size = 6, page_text = ''<html>''\<rparr> = 3 / 10"
    by simp
  have p: "BeautifulSoup scenario_world (page_text \<lparr>final_url = ''https://example.com'', status = 200,
              elapsed = 3 / 10, content_size = 6, page_text = ''<html>''\<rparr>) = Inr scenario_soup"
    by (simp add: scenario_parse)
  have c: "fetch_css_assets scenario_world
             (page_text \<lparr>final_url = ''https://example.com'', status = 200,
              elapsed = 3 / 10, content_size = 6, page_text = ''<html>''\<rparr>)
             (final_url \<lparr>final_url = ''https://example.com'', status = 200,
              elapsed = 3 / 10, content_size = 6, page_text = ''<html>''\<rparr>) 3 4
           = ''a:hover{color:#123456}''"
    by (simp add: scenario_css)
  from scenario_analysis [OF scenario_fetch e p c scenario_soup_tags]
  obtain d where a: "analyze_site scenario_world ''https://example.com''
      = Inr (Some scenario_scores, Diagnostics d)"
    by blast
  from analyze_site_scores_shape [OF a] a show ?thesis
    by blast
qed

section \<open>The claim about counting colours\<close>

text \<open>
  Claim C3. \<open>count_colors\<close> is the number of distinct colour tokens of the text, compared
  as literal strings, so that \<open>#fff\<close> and \<open>#ffffff\<close> count as two. It depends only on
  the set of tokens: two texts with the same set of tokens have the same count, wherever and
  however often the tokens occur. For two fragments joined by a semicolon the count does not
  depend on their order, and a fragment joined with itself counts as the fragment alone. The
  text \<open>#fff, #fff, rgb(1,2,3)\<close> has the count 2.
\<close>

theorem count_colors_distinct_literals:
  "count_colors (Some css) = card (set (color_tokens css))
   \<and> count_colors None = 0
   \<and> (set (color_tokens css) = set (color_tokens css') \<longrightarrow>
        count_colors (Some css) = count_colors (Some css'))
   \<and> count_colors (Some (css @ '';'' @ css')) = count_colors (Some (css' @ '';'' @ css))
   \<and> count_colors (Some (css @ '';'' @ css)) = count_colors (Some css)
   \<and> count_colors (Some ''#fff, #fff, rgb(1,2,3)'') = 2
   \<and> count_colors (Some ''#fff;#ffffff'') = 2"
proof -
  have 1: "count_colors (Some ''#fff, #fff, rgb(1,2,3)'') = 2"
    by (simp add: count_colors_def match_rgb_def lit_def spaces_def digits1_def is_hex_def
        is_digit_def is_space_def)
  have 2: "count_colors (Some ''#fff;#ffffff'') = 2"
    by (simp add: count_colors_def match_rgb_def lit_def is_hex_def)
  have 3: "count_colors None = 0"
    by (simp add: count_colors_def)
  have 4: "count_colors (Some (css @ '';'' @ css')) = count_colors (Some (css' @ '';'' @ css))"
    unfolding count_colors_sep by (simp add: Un_commute)
  have 5: "count_colors (Some (css @ '';'' @ css)) = count_colors (Some css)"
    unfolding count_colors_sep by (simp add: count_colors_card)
  have 6: "set (color_tokens css) = set (color_tokens css') \<longrightarrow>
        count_colors (Some css) = count_colors (Some css')"
    by (simp add: count_colors_card)
  from 1 2 3 4 5 6 count_colors_card [of css] show ?thesis
    by blast
qed

theorem count_colors_distinct_literals_witness:
  "set (color_tokens ''#fff, #fff, rgb(1,2,3)'') = set (color_tokens ''rgb(1,2,3) #fff'')
   \<and> count_colors (Some ''#fff, #fff, rgb(1,2,3)'') = count_colors (Some ''rgb(1,2,3) #fff'')
   \<and> count_colors (Some ''#fff, #fff, rgb(1,2,3)'') = 2"
proof -
  have e: "set (color_tokens ''#fff, #fff, rgb(1,2,3)'') = set (color_tokens ''rgb(1,2,3) #fff'')"
    by (simp add: tokens_example)
  note t = count_colors_distinct_literals [of "''#fff, #fff, rgb(1,2,3)''" "''rgb(1,2,3) #fff''"]
  from t e have "count_colors (Some ''#fff, #fff, rgb(1,2,3)'') = count_colors (Some ''rgb(1,2,3) #fff'')"
    by blast
  moreover from t have "count_colors (Some ''#fff, #fff, rgb(1,2,3)'') = 2"
    by blast
  ultimately show ?thesis
    using e by blast
qed

end
